theory Spec2Isabelle
  imports Main "HOL-Library.Word" "HOL-Library.Char_ord" "HOL-Library.List_Lexorder"
begin

unbundle bit_operations_syntax

section \<open>Shared C library primitives\<close>

text \<open>
  Strings are byte lists. A C string is the bytes up to its terminating NUL, so
  \<open>s[0]\<close> of the empty string is NUL and differs from every printable character.
\<close>

definition isspace_c :: "char \<Rightarrow> bool" where
  "isspace_c c = (c = CHR '' '' \<or> c = CHR 0x09 \<or> c = CHR 0x0A \<or> c = CHR 0x0B
                  \<or> c = CHR 0x0C \<or> c = CHR 0x0D)"

definition isdigit_c :: "char \<Rightarrow> bool" where
  "isdigit_c c = (let n = (of_char c :: nat) in 48 \<le> n \<and> n \<le> 57)"

definition tolower_c :: "char \<Rightarrow> char" where
  "tolower_c c = (let n = (of_char c :: nat) in if 65 \<le> n \<and> n \<le> 90 then char_of (n + 32) else c)"


fun strcasecmp :: "string \<Rightarrow> string \<Rightarrow> int" where
  "strcasecmp [] [] = 0"
| "strcasecmp [] (b # bs) = - int (of_char (tolower_c b))"
| "strcasecmp (a # as) [] = int (of_char (tolower_c a))"
| "strcasecmp (a # as) (b # bs) =
     (let d = int (of_char (tolower_c a)) - int (of_char (tolower_c b))
      in if d \<noteq> 0 then d else strcasecmp as bs)"

fun digits_value :: "string \<Rightarrow> int \<Rightarrow> int" where
  "digits_value [] acc = acc"
| "digits_value (c # cs) acc = digits_value cs (acc * 10 + (int (of_char c) - 48))"

definition LONG_MAX :: int where "LONG_MAX = 2 ^ 63 - 1"
definition LONG_MIN :: int where "LONG_MIN = - (2 ^ 63)"

text \<open>
  \<open>strtol(s, &end, 10)\<close> on a 64-bit \<open>long\<close>: leading white space, an optional sign,
  then decimal digits. Without a digit nothing is converted: the value is 0 and \<open>end\<close>
  is \<open>s\<close> itself. A value out of range is clamped. The result is the value and the
  unconverted rest that \<open>end\<close> points to.
\<close>

definition strtol10 :: "string \<Rightarrow> int \<times> string" where
  "strtol10 s =
     (let s1 = dropWhile isspace_c s;
          neg = (s1 \<noteq> [] \<and> hd s1 = CHR ''-'');
          s2 = (if s1 \<noteq> [] \<and> (hd s1 = CHR ''-'' \<or> hd s1 = CHR ''+'') then tl s1 else s1);
          ds = takeWhile isdigit_c s2;
          v = digits_value ds 0
      in if ds = [] then (0, s)
         else (if neg then max LONG_MIN (- v) else min LONG_MAX v, dropWhile isdigit_c s2))"

text \<open>What ends a run abnormally: a null pointer read, a write past a buffer, a read out of the bounds of a string, an exception that nothing catches.\<close>

datatype fault = NullDeref | BufferOverrun | OutOfBounds | UncaughtException

section \<open>kill: parse_signal\<close>

definition MAX_SIGNALS :: nat where "MAX_SIGNALS = 32"

text \<open>
  The array is declared with \<open>MAX_SIGNALS\<close> slots and 31 initialisers; the slot left
  over is zero-initialised, that is a null pointer.
\<close>

definition signals :: "string option list" where
  "signals =
     [Some ''HUP'', Some ''INT'', Some ''QUIT'', Some ''ILL'', Some ''TRAP'', Some ''ABRT'',
      Some ''BUS'', Some ''FPE'', Some ''KILL'', Some ''USR1'', Some ''SEGV'', Some ''USR2'',
      Some ''PIPE'', Some ''ALRM'', Some ''TERM'', Some ''STKFLT'', Some ''CHLD'', Some ''CONT'',
      Some ''STOP'', Some ''TSTP'', Some ''TTIN'', Some ''TTOU'', Some ''URG'', Some ''XCPU'',
      Some ''XFSZ'', Some ''VTALRM'', Some ''PROF'', Some ''WINCH'', Some ''POLL'', Some ''PWR'',
      Some ''SYS'', None]"

text \<open>
  The \<open>for\<close> loop of \<open>parse_signal\<close> from index \<open>i\<close> on, over the slots not yet
  visited. \<open>strcasecmp\<close> reads both arguments, so a null slot is a fault.
\<close>

fun signal_loop :: "string \<Rightarrow> string option list \<Rightarrow> nat \<Rightarrow> fault + int option" where
  "signal_loop sig [] i = Inr None"
| "signal_loop sig (None # rest) i = Inl NullDeref"
| "signal_loop sig (Some name # rest) i =
     (if strcasecmp sig name = 0
         \<or> (sig \<noteq> [] \<and> hd sig = CHR ''-'' \<and> strcasecmp (tl sig) name = 0)
      then Inr (Some (int i + 1))
      else signal_loop sig rest (i + 1))"

definition parse_signal :: "string \<Rightarrow> fault + int" where
  "parse_signal sig =
     (case signal_loop sig (take MAX_SIGNALS signals) 0 of
        Inl f \<Rightarrow> Inl f
      | Inr (Some n) \<Rightarrow> Inr n
      | Inr None \<Rightarrow>
          (let (num, end) = strtol10 sig
           in if end = [] \<and> num > 0 \<and> num \<le> int MAX_SIGNALS then Inr num else Inr (- 1)))"

section \<open>Process results\<close>

text \<open>
  What a run of a utility leaves behind: its exit status and what it wrote to standard
  output and standard error, one list element per output statement. \<open>Perror p\<close> is
  the line that \<open>perror(p)\<close> writes, whose tail depends on \<open>errno\<close>; \<open>Report f\<close> is
  the formatted metadata of file \<open>f\<close>; the fixed help, version and banner texts and the
  hint to try \<open>--help\<close> are written as events.
\<close>

datatype out = Text string | Perror string | Report string | HelpText | VersionText | BannerText | TryHelp

record outcome =
  status :: int
  stdout :: "out list"
  stderr :: "out list"

definition exited :: "int \<Rightarrow> out list \<Rightarrow> out list \<Rightarrow> outcome" where
  "exited c out err = \<lparr>status = c, stdout = out, stderr = err\<rparr>"

section \<open>Number parsing of the C and C++ libraries\<close>





text \<open>Decimal notation of a natural number, as a user writes a count on the command line.\<close>

fun decimal :: "nat \<Rightarrow> string" where
  "decimal n = (if n < 10 then [char_of (48 + n)] else decimal (n div 10) @ [char_of (48 + n mod 10)])"

declare decimal.simps [simp del]

text \<open>\<open>%d\<close> of \<open>printf\<close>.\<close>

definition show_int :: "int \<Rightarrow> string" where
  "show_int i = (if i < 0 then CHR ''-'' # decimal (nat (- i)) else decimal (nat i))"

section \<open>yes\<close>



text \<open>The handler of SIGINT and SIGTERM, on the flag \<open>keep_running\<close>.\<close>

definition handle_signal :: "bool \<Rightarrow> bool" where
  "handle_signal keep_running = False"




text \<open>
  The main output loop. \<open>sigs k\<close> tells whether a signal is delivered before the loop
  condition is evaluated for the \<open>k\<close>-th time (counting from 0); the handler then runs
  first. A run that never leaves the loop has no result.
\<close>

partial_function (option) yes_loop ::
  "(nat \<Rightarrow> bool) \<Rightarrow> string \<Rightarrow> int \<Rightarrow> bool \<Rightarrow> int \<Rightarrow> out list \<Rightarrow> out list option" where
  "yes_loop sigs line limit keep_running count out =
     (let keep_running = (if sigs (nat count) then handle_signal keep_running else keep_running)
      in if keep_running \<and> (limit < 0 \<or> count < limit)
         then yes_loop sigs line limit keep_running (count + 1) (out @ [Text line])
         else Some out)"

declare yes_loop.simps [code]


section \<open>no\<close>


record NoUtility =
  output_text :: string
  delay_ms :: int
  count :: int
  uppercase :: bool
  enthusiastic :: bool
  polite :: bool
  sarcastic :: bool
  quiet :: bool
  running :: bool

definition NoUtility_init :: NoUtility where
  "NoUtility_init =
     \<lparr>output_text = ''no'', delay_ms = 0, count = - 1, uppercase = False, enthusiastic = False,
      polite = False, sarcastic = False, quiet = False, running = True\<rparr>"


text \<open>The handler of SIGINT and SIGTERM: \<open>global_no\<close> is set before it is installed.\<close>

definition no_signalHandler :: "NoUtility \<Rightarrow> NoUtility" where
  "no_signalHandler u = u\<lparr>running := False\<rparr>"

text \<open>
  The two loops of \<open>run\<close>, with signals delivered as in \<open>yes_loop\<close>. Sleeping between
  the lines writes nothing. The counted loop runs at most \<open>count\<close> times.
\<close>

partial_function (option) no_forever ::
  "(nat \<Rightarrow> bool) \<Rightarrow> string \<Rightarrow> NoUtility \<Rightarrow> nat \<Rightarrow> out list \<Rightarrow> out list option" where
  "no_forever sigs formatted u k out =
     (let u = (if sigs k then no_signalHandler u else u)
      in if running u
         then no_forever sigs formatted u (k + 1) (out @ [Text (formatted @ ''\<newline>'')])
         else Some out)"

declare no_forever.simps [code]

function no_counted ::
  "(nat \<Rightarrow> bool) \<Rightarrow> string \<Rightarrow> NoUtility \<Rightarrow> int \<Rightarrow> out list \<Rightarrow> out list" where
  "no_counted sigs formatted u i out =
     (let u = (if sigs (nat i) then no_signalHandler u else u)
      in if i < count u \<and> running u
         then no_counted sigs formatted u (i + 1) (out @ [Text (formatted @ ''\<newline>'')])
         else out)"
  by pat_completeness auto
termination
  by (relation "measure (\<lambda>(sigs, formatted, u, i, out). nat (count u - i))")
     (auto simp: no_signalHandler_def split: if_splits)

declare no_counted.simps [simp del]




section \<open>stat\<close>

datatype stat_opt =
  StatDereference | StatFileSystem | StatFormat string | StatTerse | StatHelp | StatVersion
  | StatUnknown

definition FORMAT_DEFAULT :: int where "FORMAT_DEFAULT = 0"
definition FORMAT_TERSE :: int where "FORMAT_TERSE = 1"
definition FORMAT_CUSTOM :: int where "FORMAT_CUSTOM = 2"
definition TIME_NORMAL :: int where "TIME_NORMAL = 0"

record options_t =
  format_type :: int
  time_format :: int
  dereference :: bool
  file_system :: bool
  custom_format :: "string option"

text \<open>
  The file system as \<open>stat(2)\<close> and \<open>lstat(2)\<close> see it: for a path, either the text of
  \<open>strerror(errno)\<close> of the failed call or success.
\<close>

record stat_env =
  stat_call :: "string \<Rightarrow> string + unit"
  lstat_call :: "string \<Rightarrow> string + unit"

fun stat_options :: "stat_opt list \<Rightarrow> options_t \<Rightarrow> outcome + options_t" where
  "stat_options [] opts = Inr opts"
| "stat_options (StatDereference # rest) opts = stat_options rest (opts\<lparr>dereference := True\<rparr>)"
| "stat_options (StatFileSystem # rest) opts = stat_options rest (opts\<lparr>file_system := True\<rparr>)"
| "stat_options (StatFormat optarg # rest) opts =
     stat_options rest (opts\<lparr>format_type := FORMAT_CUSTOM, custom_format := Some optarg\<rparr>)"
| "stat_options (StatTerse # rest) opts = stat_options rest (opts\<lparr>format_type := FORMAT_TERSE\<rparr>)"
| "stat_options (StatHelp # rest) opts = Inl (exited 0 [HelpText] [])"
| "stat_options (StatVersion # rest) opts = Inl (exited 0 [VersionText] [])"
| "stat_options (StatUnknown # rest) opts = Inl (exited 1 [] [TryHelp])"

definition print_fs_stat :: "string \<Rightarrow> out list" where
  "print_fs_stat path = [Text (''File system statistics for '' @ path @ '' not yet implemented.\<newline>'')]"

definition print_file_stat :: "string \<Rightarrow> options_t \<Rightarrow> out list" where
  "print_file_stat path opts =
     (if format_type opts = FORMAT_TERSE then [Report path]
      else if format_type opts = FORMAT_CUSTOM then
        (case custom_format opts of
           Some f \<Rightarrow> [Text (''Custom format: '' @ f @ ''\<newline>'')]
         | None \<Rightarrow> [])
      else [Report path])"

text \<open>\<open>print_stat\<close> returns what it wrote to standard output and to standard error.\<close>

definition print_stat :: "stat_env \<Rightarrow> string \<Rightarrow> options_t \<Rightarrow> out list \<times> out list" where
  "print_stat env path opts =
     (case (if dereference opts then stat_call env path else lstat_call env path) of
        Inl strerror \<Rightarrow>
          ([], [Text (''stat: cannot stat '' @ [CHR 0x27] @ path @ [CHR 0x27] @ '': '' @ strerror @ ''\<newline>'')])
      | Inr sb \<Rightarrow>
          (if file_system opts then print_fs_stat path else print_file_stat path opts, []))"

text \<open>
  The loop of \<open>main\<close> over the operands: \<open>several\<close> is \<open>argc - optind > 1\<close>. The variable
  \<open>exit_status\<close> is passed along as the loop leaves it.
\<close>

fun stat_files ::
  "stat_env \<Rightarrow> options_t \<Rightarrow> bool \<Rightarrow> string list \<Rightarrow> int \<Rightarrow> out list \<Rightarrow> out list \<Rightarrow> outcome" where
  "stat_files env opts several [] exit_status out err = exited exit_status out err"
| "stat_files env opts several (path # rest) exit_status out err =
     (let out = (if several then out @ [Text (''File: '' @ path @ ''\<newline>'')] else out);
          (o1, e1) = print_stat env path opts;
          out = out @ o1;
          err = err @ e1;
          out = (if rest \<noteq> [] then out @ [Text ''\<newline>''] else out)
      in stat_files env opts several rest exit_status out err)"

definition stat_main :: "stat_env \<Rightarrow> stat_opt list \<Rightarrow> string list \<Rightarrow> outcome" where
  "stat_main env opts args =
     (case stat_options opts
             \<lparr>format_type = FORMAT_DEFAULT, time_format = TIME_NORMAL, dereference = False,
              file_system = False, custom_format = None\<rparr> of
        Inl early \<Rightarrow> early
      | Inr o' \<Rightarrow>
          if args = []
          then exited 1 [] [Text ''stat: missing operand\<newline>'', TryHelp]
          else stat_files env o' (length args > 1) args 0 [] [])"

section \<open>tee\<close>

datatype tee_opt = TeeAppend | TeeIgnoreInterrupts | TeeLineBuffered | TeeVerbose | TeeHelp
  | TeeVersion | TeeUnknown

record tee_flags =
  append_flag :: bool
  ignore_interrupts :: bool
  output_linebuffered :: bool
  verbose_mode :: bool

datatype open_flag = O_WRONLY | O_CREAT | O_APPEND | O_TRUNC

text \<open>
  What \<open>tee\<close> does to the outside, in order: the files it opens (with the descriptor it
  got), the bytes a \<open>write\<close> put on a descriptor, the descriptors it closes.
\<close>

datatype io = Opened string "open_flag list" int | Wrote int string | Closed int

text \<open>
  The operating system. \<open>malloc_ok\<close>: the allocation of the descriptor array succeeds.
  \<open>open_call name flags\<close>: what \<open>open\<close> returns, a descriptor or -1, and the text of
  \<open>strerror(errno)\<close> after it.
  \<open>read_calls\<close>: what the successive calls of \<open>read\<close> on standard input return, a
  chunk of 1 to \<open>BUFFER_SIZE\<close> bytes (4096 in this program, \<open>TEE_BUFFER_SIZE\<close> here) or the error text for a return of -1; after the
  list, and at an empty chunk, \<open>read\<close> returns 0. \<open>write_call fd k n\<close>: what \<open>write\<close> of
  \<open>n\<close> bytes to \<open>fd\<close> returns after the \<open>k\<close>-th \<open>read\<close>, and the error text should
  \<open>tee\<close> take that for a failure. \<open>close_call fd\<close>: the error text when \<open>close\<close> fails.
\<close>

record tee_env =
  malloc_ok :: bool
  open_call :: "string \<Rightarrow> open_flag list \<Rightarrow> int \<times> string"
  read_calls :: "(string + string) list"
  write_call :: "int \<Rightarrow> nat \<Rightarrow> nat \<Rightarrow> int \<times> string"
  close_call :: "int \<Rightarrow> string option"

record tee_state =
  file_descriptors :: "int list"
  effects :: "io list"
  messages :: "out list"

definition TEE_BUFFER_SIZE :: nat where "TEE_BUFFER_SIZE = 4096"
definition STDOUT_FILENO :: int where "STDOUT_FILENO = 1"
definition SIZE_MAX :: nat where "SIZE_MAX = 2 ^ 64 - 1"

text \<open>The conversion of an \<open>ssize_t\<close> to the 64-bit \<open>size_t\<close> it is compared with.\<close>

definition to_size_t :: "int \<Rightarrow> nat" where
  "to_size_t r = nat (r mod 2 ^ 64)"

text \<open>
  The handler of SIGINT, installed unless \<open>-i\<close> is given: it ends the process with
  \<open>exit(EXIT_SUCCESS)\<close>. The result is what the process leaves behind, given what it
  has written to standard error so far.
\<close>

definition tee_signal_handler :: "tee_flags \<Rightarrow> int \<Rightarrow> out list \<Rightarrow> int \<times> out list" where
  "tee_signal_handler flags sig err =
     (0, if verbose_mode flags
         then err @ [Text (''Received signal '' @ show_int sig @ ''\<newline>'')] else err)"

fun tee_options :: "tee_opt list \<Rightarrow> tee_flags \<Rightarrow> outcome + tee_flags" where
  "tee_options [] flags = Inr flags"
| "tee_options (TeeAppend # rest) flags = tee_options rest (flags\<lparr>append_flag := True\<rparr>)"
| "tee_options (TeeIgnoreInterrupts # rest) flags = tee_options rest (flags\<lparr>ignore_interrupts := True\<rparr>)"
| "tee_options (TeeLineBuffered # rest) flags = tee_options rest (flags\<lparr>output_linebuffered := True\<rparr>)"
| "tee_options (TeeVerbose # rest) flags = tee_options rest (flags\<lparr>verbose_mode := True\<rparr>)"
| "tee_options (TeeHelp # rest) flags = Inl (exited 0 [HelpText] [])"
| "tee_options (TeeVersion # rest) flags = Inl (exited 0 [VersionText] [])"
| "tee_options (TeeUnknown # rest) flags = Inl (exited 1 [] [TryHelp])"

definition open_flags :: "tee_flags \<Rightarrow> open_flag list" where
  "open_flags flags = [O_WRONLY, O_CREAT] @ [if append_flag flags then O_APPEND else O_TRUNC]"

text \<open>The loop that opens the files, one step per file name.\<close>

fun open_files :: "tee_env \<Rightarrow> tee_flags \<Rightarrow> string list \<Rightarrow> tee_state \<Rightarrow> tee_state" where
  "open_files env flags [] st = st"
| "open_files env flags (name # rest) st =
     (let (fd, strerror) = open_call env name (open_flags flags)
      in if fd = - 1
         then open_files env flags rest
                (st\<lparr>file_descriptors := file_descriptors st @ [- 1],
                   messages := messages st @ [Text (''tee: '' @ name @ '': '' @ strerror @ ''\<newline>'')]\<rparr>)
         else open_files env flags rest
                (st\<lparr>file_descriptors := file_descriptors st @ [fd],
                   effects := effects st @ [Opened name (open_flags flags) fd],
                   messages := messages st @
                     (if verbose_mode flags
                      then [Text (''Opened file: '' @ name @ '' (fd: '' @ show_int fd @ '', mode: ''
                              @ (if append_flag flags then ''append'' else ''overwrite'') @ '')\<newline>'')]
                      else [])\<rparr>))"

text \<open>
  The loop that writes the buffer to all files after the \<open>k\<close>-th \<open>read\<close>, one step per
  file: \<open>i\<close> is the loop index, \<open>names\<close> the names from \<open>i\<close> on. A \<open>write\<close> that
  returns \<open>r \<ge> 0\<close> has put the first \<open>r\<close> bytes of the buffer on the descriptor.
\<close>

fun write_files ::
  "tee_env \<Rightarrow> nat \<Rightarrow> string \<Rightarrow> nat \<Rightarrow> string list \<Rightarrow> nat \<Rightarrow> tee_state \<Rightarrow> tee_state" where
  "write_files env k buffer bytes_read [] i st = st"
| "write_files env k buffer bytes_read (name # rest) i st =
     (let fd = file_descriptors st ! i
      in if fd \<noteq> - 1
         then (let (r, strerror) = write_call env fd k bytes_read;
                   st = st\<lparr>effects := effects st @ [Wrote fd (take (nat r) buffer)]\<rparr>
               in if to_size_t r \<noteq> bytes_read
                  then write_files env k buffer bytes_read rest (i + 1)
                         (st\<lparr>messages := messages st @ [Text (''tee: '' @ name @ '': '' @ strerror @ ''\<newline>'')],
                            effects := effects st @ [Closed fd],
                            file_descriptors := (file_descriptors st)[i := - 1]\<rparr>)
                  else write_files env k buffer bytes_read rest (i + 1) st)
         else write_files env k buffer bytes_read rest (i + 1) st)"

text \<open>
  The main read/write loop, over the calls of \<open>read\<close> still to come. \<open>bytes_read\<close> is a
  \<open>size_t\<close>: a return of -1 is stored as \<open>SIZE_MAX\<close>, which is greater than 0, and the
  buffer keeps what it held. The result is the last value of \<open>bytes_read\<close> and the state.
\<close>

fun tee_loop ::
  "tee_env \<Rightarrow> string list \<Rightarrow> (string + string) list \<Rightarrow> nat \<Rightarrow> string \<Rightarrow> tee_state
     \<Rightarrow> nat \<times> tee_state" where
  "tee_loop env names [] k buffer st = (0, st)"
| "tee_loop env names (r # reads) k buffer st =
     (let (bytes_read, buffer) =
            (case r of Inr chunk \<Rightarrow> (length chunk, chunk) | Inl strerror \<Rightarrow> (SIZE_MAX, buffer))
      in if bytes_read > 0
         then (let (w, strerror) = write_call env STDOUT_FILENO k bytes_read;
                   st = st\<lparr>effects := effects st @ [Wrote STDOUT_FILENO (take (nat w) buffer)]\<rparr>
               in if to_size_t w \<noteq> bytes_read
                  then (bytes_read, st\<lparr>messages := messages st @ [Perror ''Error writing to standard output'']\<rparr>)
                  else tee_loop env names reads (k + 1) buffer
                         (write_files env k buffer bytes_read names 0 st))
         else (0, st))"

text \<open>The loop that closes the files.\<close>

fun close_files :: "tee_env \<Rightarrow> int list \<Rightarrow> tee_state \<Rightarrow> tee_state" where
  "close_files env [] st = st"
| "close_files env (fd # rest) st =
     (if fd \<noteq> - 1
      then close_files env rest
             (st\<lparr>effects := effects st @ [Closed fd],
                messages := messages st @
                  (case close_call env fd of
                     Some strerror \<Rightarrow> [Text (''Error closing file: '' @ strerror @ ''\<newline>'')]
                   | None \<Rightarrow> [])\<rparr>)
      else close_files env rest st)"

text \<open>
  \<open>main\<close>, with no signal delivered: the exit status, what was done to the files and to
  standard output, the final descriptor array, and standard error.
\<close>

definition tee_main :: "tee_env \<Rightarrow> tee_opt list \<Rightarrow> string list \<Rightarrow> outcome + int \<times> tee_state" where
  "tee_main env opts names =
     (case tee_options opts
             \<lparr>append_flag = False, ignore_interrupts = False, output_linebuffered = False,
              verbose_mode = False\<rparr> of
        Inl early \<Rightarrow> Inl early
      | Inr flags \<Rightarrow>
          if names \<noteq> [] \<and> \<not> malloc_ok env
          then Inl (exited 1 [] [Perror ''Memory allocation error''])
          else (let st = open_files env flags names
                           \<lparr>file_descriptors = [], effects = [], messages = []\<rparr>;
                    (bytes_read, st) = tee_loop env names (read_calls env) 0 [] st;
                    st = (if bytes_read = SIZE_MAX
                          then st\<lparr>messages := messages st @ [Perror ''Read error'']\<rparr> else st);
                    st = close_files env (file_descriptors st) st
                in Inr (0, st)))"

section \<open>ping: the run loop\<close>

text \<open>
  The fields of \<open>PingUtility\<close> that the loop of \<open>run\<close> reads and writes. Sending a packet,
  waiting for the reply, printing the result and sleeping are recorded as one entry of
  \<open>pinged\<close>: the target and the sequence number.
\<close>

record PingUtility =
  targets :: "string list"
  ping_count :: int
  ping_continuous :: bool
  ping_flood_mode :: bool
  ping_running :: bool
  ping_checks :: nat
  pinged :: "(string \<times> int) list"

text \<open>The handler of SIGINT and SIGTERM: \<open>global_ping\<close> is set before it is installed.\<close>

definition ping_signalHandler :: "PingUtility \<Rightarrow> PingUtility" where
  "ping_signalHandler p = p\<lparr>ping_running := False\<rparr>"

text \<open>
  Reading the flag \<open>running\<close>: \<open>sigs k\<close> tells whether a signal is delivered before the
  \<open>k\<close>-th read, and \<open>ping_checks\<close> counts the reads.
\<close>

definition ping_check :: "(nat \<Rightarrow> bool) \<Rightarrow> PingUtility \<Rightarrow> PingUtility" where
  "ping_check sigs p =
     (let p = (if sigs (ping_checks p) then ping_signalHandler p else p)
      in p\<lparr>ping_checks := ping_checks p + 1\<rparr>)"

fun ping_targets ::
  "(nat \<Rightarrow> bool) \<Rightarrow> string list \<Rightarrow> PingUtility \<Rightarrow> int \<Rightarrow> PingUtility \<times> int" where
  "ping_targets sigs [] p sequence = (p, sequence)"
| "ping_targets sigs (target # rest) p sequence =
     (let p = ping_check sigs p
      in if \<not> ping_running p then (p, sequence)
         else ping_targets sigs rest (p\<lparr>pinged := pinged p @ [(target, sequence)]\<rparr>) (sequence + 1))"

partial_function (option) ping_loop ::
  "(nat \<Rightarrow> bool) \<Rightarrow> PingUtility \<Rightarrow> int \<Rightarrow> int \<Rightarrow> PingUtility option" where
  "ping_loop sigs p sequence completed_pings =
     (let p = ping_check sigs p
      in if ping_running p \<and> (ping_continuous p \<or> completed_pings < ping_count p)
         then (let (p, sequence) = ping_targets sigs (targets p) p sequence;
                   completed_pings = completed_pings + 1
               in if \<not> ping_continuous p \<and> completed_pings \<ge> ping_count p then Some p
                  else ping_loop sigs p sequence completed_pings)
         else Some p)"

declare ping_loop.simps [code]

text \<open>\<open>run\<close>: the exit status and the final state, or no result when the loop never ends.\<close>

definition ping_run :: "(nat \<Rightarrow> bool) \<Rightarrow> PingUtility \<Rightarrow> (int \<times> PingUtility) option" where
  "ping_run sigs p =
     (if targets p = [] then Some (1, p)
      else (case ping_loop sigs p 1 0 of None \<Rightarrow> None | Some p \<Rightarrow> Some (0, p)))"

subsection \<open>What the claim on tee expects\<close>

text \<open>
  What the claim on \<open>tee\<close> expects, written without the descriptor array. A write of
  \<open>n\<close> bytes is complete when \<open>write\<close> returns \<open>n\<close>. A file is still valid before the
  \<open>k\<close>-th chunk when it was opened and every write to it so far was complete.
\<close>

definition write_complete :: "tee_env \<Rightarrow> int \<Rightarrow> nat \<Rightarrow> nat \<Rightarrow> bool" where
  "write_complete env fd k n = (to_size_t (fst (write_call env fd k n)) = n)"

definition still_valid :: "tee_env \<Rightarrow> string list \<Rightarrow> int \<Rightarrow> nat \<Rightarrow> bool" where
  "still_valid env chunks fd k =
     (fd \<noteq> - 1 \<and> list_all (\<lambda>j. write_complete env fd j (length (chunks ! j))) [0..<k])"

definition opened_fds :: "tee_env \<Rightarrow> tee_flags \<Rightarrow> string list \<Rightarrow> int list" where
  "opened_fds env flags names = map (\<lambda>name. fst (open_call env name (open_flags flags))) names"

definition expected_open_effects :: "tee_env \<Rightarrow> tee_flags \<Rightarrow> string list \<Rightarrow> io list" where
  "expected_open_effects env flags names =
     concat (map (\<lambda>name. let fd = fst (open_call env name (open_flags flags))
                          in if fd = - 1 then []
                             else [Opened name [O_WRONLY, O_CREAT, if append_flag flags then O_APPEND else O_TRUNC] fd])
               names)"

definition expected_open_messages :: "tee_env \<Rightarrow> tee_flags \<Rightarrow> string list \<Rightarrow> out list" where
  "expected_open_messages env flags names =
     concat (map (\<lambda>name. let (fd, strerror) = open_call env name (open_flags flags)
                          in if fd = - 1 then [Text (''tee: '' @ name @ '': '' @ strerror @ ''\<newline>'')]
                             else if verbose_mode flags
                             then [Text (''Opened file: '' @ name @ '' (fd: '' @ show_int fd @ '', mode: ''
                                     @ (if append_flag flags then ''append'' else ''overwrite'') @ '')\<newline>'')]
                             else []) names)"

text \<open>The \<open>k\<close>-th chunk goes to standard output and to every file still valid.\<close>

definition expected_chunk_effects ::
  "tee_env \<Rightarrow> string list \<Rightarrow> int list \<Rightarrow> nat \<Rightarrow> io list" where
  "expected_chunk_effects env chunks fds k =
     Wrote STDOUT_FILENO (chunks ! k) #
     concat (map (\<lambda>fd. if still_valid env chunks fd k
                        then Wrote fd (take (nat (fst (write_call env fd k (length (chunks ! k))))) (chunks ! k))
                             # (if write_complete env fd k (length (chunks ! k)) then [] else [Closed fd])
                        else []) fds)"

definition expected_chunk_messages ::
  "tee_env \<Rightarrow> string list \<Rightarrow> string list \<Rightarrow> int list \<Rightarrow> nat \<Rightarrow> out list" where
  "expected_chunk_messages env chunks names fds k =
     concat (map (\<lambda>(name, fd).
                    if still_valid env chunks fd k \<and> \<not> write_complete env fd k (length (chunks ! k))
                    then [Text (''tee: '' @ name @ '': '' @ snd (write_call env fd k (length (chunks ! k))) @ ''\<newline>'')]
                    else []) (zip names fds))"

definition expected_close_effects :: "tee_env \<Rightarrow> string list \<Rightarrow> int list \<Rightarrow> io list" where
  "expected_close_effects env chunks fds =
     map Closed (filter (\<lambda>fd. still_valid env chunks fd (length chunks)) fds)"

definition expected_close_messages :: "tee_env \<Rightarrow> string list \<Rightarrow> int list \<Rightarrow> out list" where
  "expected_close_messages env chunks fds =
     concat (map (\<lambda>fd. case close_call env fd of
                          Some strerror \<Rightarrow> [Text (''Error closing file: '' @ strerror @ ''\<newline>'')]
                        | None \<Rightarrow> [])
               (filter (\<lambda>fd. still_valid env chunks fd (length chunks)) fds))"

definition tee_expected :: "tee_env \<Rightarrow> tee_flags \<Rightarrow> string list \<Rightarrow> string list \<Rightarrow> tee_state" where
  "tee_expected env flags names chunks =
     (let fds = opened_fds env flags names
      in \<lparr>file_descriptors = map (\<lambda>fd. if still_valid env chunks fd (length chunks) then fd else - 1) fds,
          effects = expected_open_effects env flags names
                    @ concat (map (expected_chunk_effects env chunks fds) [0..<length chunks])
                    @ expected_close_effects env chunks fds,
          messages = expected_open_messages env flags names
                    @ concat (map (expected_chunk_messages env chunks names fds) [0..<length chunks])
                    @ expected_close_messages env chunks fds\<rparr>)"

definition tee_example_env :: tee_env where
  "tee_example_env =
     \<lparr>malloc_ok = True,
      open_call = (\<lambda>name flags. if name = ''b'' then (- 1, ''Permission denied'')
                                 else if name = ''a'' then (3, []) else (4, [])),
      read_calls = [Inr ''x'', Inr ''y''],
      write_call = (\<lambda>fd k n. if fd = 3 \<and> k = 1 then (- 1, ''No space left on device'') else (int n, [])),
      close_call = (\<lambda>fd. None)\<rparr>"

section \<open>Signal dispositions\<close>

text \<open>
  The two signals that the utilities install handlers for, with their numbers, and the
  dispositions that \<open>signal\<close> sets: the default action, \<open>SIG_IGN\<close>, or the handler of
  the program.
\<close>

datatype signal = SIGINT | SIGTERM

fun signo :: "signal \<Rightarrow> int" where
  "signo SIGINT = 2"
| "signo SIGTERM = 15"

datatype disposition = SIG_DFL | SIG_IGN | Handler

text \<open>
  What the delivery of a signal does to a process in a state: the program resumes, in
  the state that the handler left (the same state when the signal is ignored); the
  process ends through \<open>exit\<close> inside the handler, with a status and what it has written
  to standard error; or the default action of SIGINT and SIGTERM ends the process.
\<close>

datatype 's delivery = Resumes 's | Exits int "out list" | KilledBy signal

definition deliver :: "disposition \<Rightarrow> ('s \<Rightarrow> 's delivery) \<Rightarrow> signal \<Rightarrow> 's \<Rightarrow> 's delivery" where
  "deliver d handler s st =
     (case d of SIG_DFL \<Rightarrow> KilledBy s | SIG_IGN \<Rightarrow> Resumes st | Handler \<Rightarrow> handler st)"

text \<open>
  \<open>main\<close> of \<open>yes\<close>, of \<open>no\<close> and of \<open>ping\<close> starts with \<open>signal(SIGINT, h)\<close> and
  \<open>signal(SIGTERM, h)\<close> for the handler \<open>h\<close> of the program, which returns.
\<close>

fun yes_installed :: "signal \<Rightarrow> disposition" where
  "yes_installed SIGINT = Handler"
| "yes_installed SIGTERM = Handler"

definition yes_deliver :: "signal \<Rightarrow> bool \<Rightarrow> bool delivery" where
  "yes_deliver s keep_running =
     deliver (yes_installed s) (\<lambda>keep_running. Resumes (handle_signal keep_running)) s keep_running"

fun no_installed :: "signal \<Rightarrow> disposition" where
  "no_installed SIGINT = Handler"
| "no_installed SIGTERM = Handler"

definition no_deliver :: "signal \<Rightarrow> NoUtility \<Rightarrow> NoUtility delivery" where
  "no_deliver s u = deliver (no_installed s) (\<lambda>u. Resumes (no_signalHandler u)) s u"

fun ping_installed :: "signal \<Rightarrow> disposition" where
  "ping_installed SIGINT = Handler"
| "ping_installed SIGTERM = Handler"

definition ping_deliver :: "signal \<Rightarrow> PingUtility \<Rightarrow> PingUtility delivery" where
  "ping_deliver s p = deliver (ping_installed s) (\<lambda>p. Resumes (ping_signalHandler p)) s p"

text \<open>
  \<open>main\<close> of \<open>tee\<close>, after the options: \<open>signal(SIGINT, SIG_IGN)\<close> with \<open>-i\<close>, else
  \<open>signal(SIGINT, signal_handler)\<close>; nothing is installed for SIGTERM. The handler does
  not return. The state is what the process has written to standard error.
\<close>

fun tee_installed :: "tee_flags \<Rightarrow> signal \<Rightarrow> disposition" where
  "tee_installed flags SIGINT = (if ignore_interrupts flags then SIG_IGN else Handler)"
| "tee_installed flags SIGTERM = SIG_DFL"

definition tee_deliver :: "tee_flags \<Rightarrow> signal \<Rightarrow> out list \<Rightarrow> (out list) delivery" where
  "tee_deliver flags s err =
     deliver (tee_installed flags s)
       (\<lambda>err. case tee_signal_handler flags (signo s) err of (rc, err) \<Rightarrow> Exits rc err)
       s err"

text \<open>
  The signals that reach a run of \<open>yes\<close>, \<open>no\<close> or \<open>ping\<close>: \<open>delivered j\<close> is the signal,
  if any, that arrives before the \<open>j\<close>-th read of the flag (counting from 0). The
  handler runs for it when it is what the program has installed for that signal; this
  is the schedule \<open>sigs\<close> of the loops. The first signal arrives before the \<open>k\<close>-th
  read.
\<close>

definition handler_runs :: "(signal \<Rightarrow> disposition) \<Rightarrow> (nat \<Rightarrow> signal option) \<Rightarrow> nat \<Rightarrow> bool" where
  "handler_runs installed delivered j =
     (case delivered j of None \<Rightarrow> False | Some s \<Rightarrow> installed s = Handler)"

definition first_delivery :: "(nat \<Rightarrow> signal option) \<Rightarrow> nat \<Rightarrow> bool" where
  "first_delivery delivered k \<longleftrightarrow> (\<forall>j<k. delivered j = None) \<and> delivered k \<noteq> None"

definition sigterm_at :: "nat \<Rightarrow> nat \<Rightarrow> signal option" where
  "sigterm_at k j = (if j = k then Some SIGTERM else None)"

definition ping_example :: PingUtility where
  "ping_example =
     \<lparr>targets = [''h''], ping_count = 4, ping_continuous = True, ping_flood_mode = False,
      ping_running = True, ping_checks = 0, pinged = []\<rparr>"

section \<open>ping: calculateChecksum\<close>

text \<open>
  The buffer is the \<open>len\<close> bytes at \<open>data\<close>. The loop reads it as \<open>uint16_t\<close> values in the
  byte order of the host, which the source does not fix: \<open>big_endian\<close> is a parameter.
  The accumulator is a \<open>uint32_t\<close>, written as a natural number reduced modulo \<open>2 ^ 32\<close>
  after every addition; \<open>sum >> 16\<close> is \<open>s div 2 ^ 16\<close> and \<open>sum & 0xFFFF\<close> is
  \<open>s mod 2 ^ 16\<close>. The result is \<open>~sum\<close> cut to 16 bits.
\<close>

type_synonym u8 = "8 word"

definition load16 :: "bool \<Rightarrow> u8 \<Rightarrow> u8 \<Rightarrow> nat" where
  "load16 big_endian b0 b1 =
     (if big_endian then 256 * unat b0 + unat b1 else 256 * unat b1 + unat b0)"

fun sum_words :: "bool \<Rightarrow> u8 list \<Rightarrow> nat \<Rightarrow> nat" where
  "sum_words be (b0 # b1 # rest) s = sum_words be rest ((s + load16 be b0 b1) mod 2 ^ 32)"
| "sum_words be [b] s = (s + unat b) mod 2 ^ 32"
| "sum_words be [] s = s"

function fold_carries :: "nat \<Rightarrow> nat" where
  "fold_carries s =
     (if s div 2 ^ 16 \<noteq> 0 then fold_carries ((s mod 2 ^ 16 + s div 2 ^ 16) mod 2 ^ 32) else s)"
  by pat_completeness auto
termination
proof (relation "measure (\<lambda>s. s)")
  show "wf (measure (\<lambda>s. s))" by simp
next
  fix s :: nat
  assume nz: "s div 2 ^ 16 \<noteq> 0"
  define q where "q = s div 65536"
  define r where "r = s mod 65536"
  have s: "s = 65536 * q + r" by (simp add: q_def r_def)
  from nz have "1 \<le> q" by (simp add: q_def)
  with s have "r + q < s" by linarith
  moreover have "(r + q) mod 2 ^ 32 \<le> r + q" by (rule mod_less_eq_dividend)
  ultimately show "((s mod 2 ^ 16 + s div 2 ^ 16) mod 2 ^ 32, s) \<in> measure (\<lambda>s. s)"
    by (simp add: q_def r_def)
qed

declare fold_carries.simps [simp del]

definition calculateChecksum :: "bool \<Rightarrow> u8 list \<Rightarrow> nat" where
  "calculateChecksum be data = (2 ^ 32 - 1 - fold_carries (sum_words be data 0)) mod 2 ^ 16"

text \<open>
  The Internet checksum in the words of RFC 1071, for comparison: the 16-bit words of
  the buffer, a trailing odd byte counting as one more word of that byte's value, are
  added in one's complement arithmetic (a carry out of bit 15 is added back in at bit 0),
  and the sum is complemented.
\<close>

fun words16 :: "bool \<Rightarrow> u8 list \<Rightarrow> nat list" where
  "words16 be (b0 # b1 # rest) = load16 be b0 b1 # words16 be rest"
| "words16 be [b] = [unat b]"
| "words16 be [] = []"

definition ones_add :: "nat \<Rightarrow> nat \<Rightarrow> nat" where
  "ones_add a b = (a + b) mod 2 ^ 16 + (a + b) div 2 ^ 16"

definition internet_checksum :: "bool \<Rightarrow> u8 list \<Rightarrow> nat" where
  "internet_checksum be data = 65535 - foldl ones_add 0 (words16 be data)"

section \<open>tree\<close>

text \<open>
  A directory entry as \<open>std::filesystem\<close> reports it: its file name, whether
  \<open>is_directory\<close> and \<open>is_symlink\<close> hold of its path (a link to a directory is both), the
  owner's permission bits, the result of \<open>file_size\<close> (\<open>None\<close>: it throws) and, for a
  directory, the entries that \<open>directory_iterator\<close> yields (\<open>None\<close>: it throws, and
  \<open>listing_what\<close> is the text of the exception).
\<close>

datatype fs_entry =
  Entry (path_filename: string) (is_directory: bool) (is_symlink: bool)
        (owner_read: bool) (owner_write: bool) (owner_exec: bool)
        (file_size: "nat option") (listing: "fs_entry list option") (listing_what: string)

record Options =
  showHidden :: bool
  showPermissions :: bool
  showFileSize :: bool
  colorOutput :: bool
  onlyDirs :: bool
  onlyFiles :: bool
  maxDepth :: int
  indentChars :: string
  branchChars :: string
  lastBranchChars :: string
  patterns :: "string list"

definition Options_default :: Options where
  "Options_default =
     \<lparr>showHidden = False, showPermissions = False, showFileSize = False, colorOutput = True,
      onlyDirs = False, onlyFiles = False, maxDepth = - 1,
      indentChars = [CHR 0xE2, CHR 0x94, CHR 0x82] @ ''   '',
      branchChars = [CHR 0xE2, CHR 0x94, CHR 0x9C, CHR 0xE2, CHR 0x94, CHR 0x80,
                     CHR 0xE2, CHR 0x94, CHR 0x80] @ '' '',
      lastBranchChars = [CHR 0xE2, CHR 0x94, CHR 0x94, CHR 0xE2, CHR 0x94, CHR 0x80,
                         CHR 0xE2, CHR 0x94, CHR 0x80] @ '' '',
      patterns = []\<rparr>"

definition COLOR_RESET :: string where "COLOR_RESET = CHR 0x1B # ''[0m''"
definition COLOR_BLUE :: string where "COLOR_BLUE = CHR 0x1B # ''[1;34m''"
definition COLOR_GREEN :: string where "COLOR_GREEN = CHR 0x1B # ''[1;32m''"
definition COLOR_YELLOW :: string where "COLOR_YELLOW = CHR 0x1B # ''[1;33m''"
definition COLOR_RED :: string where "COLOR_RED = CHR 0x1B # ''[1;31m''"

text \<open>
  A line of standard output: the line of an entry, kept together with the entry it
  shows; the line for a directory that cannot be read; any other line.
\<close>

datatype tree_line = EntryLine string fs_entry | ErrorLine string | Line string

record tree_state =
  dirCount :: int
  fileCount :: int
  printed :: "tree_line list"

text \<open>
  \<open>matchesPattern\<close>, on the file name. For the empty pattern \<open>pattern[0]\<close> is the
  terminating NUL, and \<open>pattern[pattern.size() - 1]\<close> reads out of bounds.
\<close>

fun matchesPattern_loop :: "string list \<Rightarrow> string \<Rightarrow> fault + bool" where
  "matchesPattern_loop [] filename = Inr False"
| "matchesPattern_loop (pattern # rest) filename =
     (if pattern = [] then Inl OutOfBounds
      else if hd pattern = CHR ''*'' then
        (let suffix = tl pattern
         in if length filename \<ge> length suffix
               \<and> drop (length filename - length suffix) filename = suffix
            then Inr True else matchesPattern_loop rest filename)
      else if last pattern = CHR ''*'' then
        (let prefix = butlast pattern
         in if take (length prefix) filename = prefix
            then Inr True else matchesPattern_loop rest filename)
      else if filename = pattern then Inr True
      else matchesPattern_loop rest filename)"

definition matchesPattern :: "Options \<Rightarrow> string \<Rightarrow> fault + bool" where
  "matchesPattern options filename =
     (if patterns options = [] then Inr True else matchesPattern_loop (patterns options) filename)"

definition printWithColor :: "Options \<Rightarrow> string \<Rightarrow> string \<Rightarrow> string" where
  "printWithColor options text color =
     (if colorOutput options then color @ text @ COLOR_RESET else text)"

text \<open>
  The part of \<open>printTree\<close> that prints the current item and counts it. The text of a
  file size is formatted with floating point numbers; \<open>getHumanReadableSize\<close> is a
  parameter.
\<close>

definition print_item ::
  "(nat \<Rightarrow> string) \<Rightarrow> Options \<Rightarrow> fs_entry \<Rightarrow> string \<Rightarrow> bool \<Rightarrow> tree_state \<Rightarrow> tree_state" where
  "print_item getHumanReadableSize options path prefix isLast st =
     (let line = prefix @ (if isLast then lastBranchChars options else branchChars options);
          line = (if showFileSize options \<and> \<not> is_directory path
                  then (case file_size path of
                          Some sz \<Rightarrow> line @ ''['' @ getHumanReadableSize sz @ ''] ''
                        | None \<Rightarrow> line @ ''[???] '')
                  else line);
          line = (if showPermissions options
                  then line @ ''['' @ (if owner_read path then ''r'' else ''-'')
                         @ (if owner_write path then ''w'' else ''-'')
                         @ (if owner_exec path then ''x'' else ''-'') @ ''] ''
                  else line)
      in if is_directory path
         then st\<lparr>printed := printed st @
                   [EntryLine (line @ printWithColor options (path_filename path) COLOR_BLUE) path],
                 dirCount := dirCount st + 1\<rparr>
         else if is_symlink path
         then st\<lparr>printed := printed st @
                   [EntryLine (line @ printWithColor options (path_filename path) COLOR_YELLOW) path],
                 fileCount := fileCount st + 1\<rparr>
         else if owner_exec path
         then st\<lparr>printed := printed st @
                   [EntryLine (line @ printWithColor options (path_filename path) COLOR_GREEN) path],
                 fileCount := fileCount st + 1\<rparr>
         else st\<lparr>printed := printed st @
                   [EntryLine (line @ printWithColor options (path_filename path) COLOR_RESET) path],
                 fileCount := fileCount st + 1\<rparr>)"

text \<open>\<open>printTree\<close> and its loop over the sorted entries of a directory.\<close>

function (sequential)
  printTree :: "(nat \<Rightarrow> string) \<Rightarrow> Options \<Rightarrow> fs_entry \<Rightarrow> string \<Rightarrow> bool \<Rightarrow> int \<Rightarrow> tree_state
                  \<Rightarrow> fault + tree_state"
  and printTree_loop :: "(nat \<Rightarrow> string) \<Rightarrow> Options \<Rightarrow> fs_entry list \<Rightarrow> string \<Rightarrow> int \<Rightarrow> tree_state
                  \<Rightarrow> fault + tree_state"
where
  "printTree getHumanReadableSize options path prefix isLast depth st =
     (if maxDepth options \<noteq> - 1 \<and> depth > maxDepth options then Inr st
      else if \<not> showHidden options \<and> path_filename path \<noteq> [] \<and> hd (path_filename path) = CHR ''.''
      then Inr st
      else if (onlyDirs options \<and> \<not> is_directory path) \<or> (onlyFiles options \<and> is_directory path)
      then Inr st
      else (case matchesPattern options (path_filename path) of
              Inl f \<Rightarrow> Inl f
            | Inr False \<Rightarrow> Inr st
            | Inr True \<Rightarrow>
               (let st = print_item getHumanReadableSize options path prefix isLast st
                in if is_directory path
                   then (case listing path of
                           Some paths \<Rightarrow>
                             printTree_loop getHumanReadableSize options (sort_key path_filename paths)
                               (prefix @ (if isLast then ''    '' else indentChars options)) (depth + 1) st
                         | None \<Rightarrow>
                             Inr (st\<lparr>printed := printed st @
                                    [ErrorLine (prefix @ (if isLast then ''    '' else indentChars options)
                                       @ lastBranchChars options
                                       @ printWithColor options (''Error: '' @ listing_what path) COLOR_RED)]\<rparr>))
                   else Inr st)))"
| "printTree_loop getHumanReadableSize options [] prefix depth st = Inr st"
| "printTree_loop getHumanReadableSize options (p # rest) prefix depth st =
     (case printTree getHumanReadableSize options p prefix (rest = []) depth st of
        Inl f \<Rightarrow> Inl f
      | Inr st \<Rightarrow> printTree_loop getHumanReadableSize options rest prefix depth st)"
  by pat_completeness auto
termination
proof (relation "measure (\<lambda>x. case x of
          Inl (h, options, path, prefix, isLast, depth, st) \<Rightarrow> size path
        | Inr (h, options, paths, prefix, depth, st) \<Rightarrow> size_list size paths)")
  have ins: "size_list size (insort_key path_filename x xs) = size (x :: fs_entry) + size_list size xs + 1"
    for x xs by (induction xs) simp_all
  have srt: "size_list size (sort_key path_filename xs) = size_list size (xs :: fs_entry list)" for xs
    by (induction xs) (simp_all add: ins)
  fix h :: "nat \<Rightarrow> string" and options path prefix isLast and depth :: int and st :: tree_state
    and paths st'
  assume "listing path = Some paths"
  then have "size_list size paths < size path" by (cases path) simp
  then show "(Inr (h, options, sort_key path_filename paths,
                  prefix @ (if isLast then ''    '' else indentChars options), depth + 1, st'),
             Inl (h, options, path, prefix, isLast, depth, st)) \<in> measure (\<lambda>x. case x of
          Inl (h, options, path, prefix, isLast, depth, st) \<Rightarrow> size path
        | Inr (h, options, paths, prefix, depth, st) \<Rightarrow> size_list size paths)"
    by (simp add: srt)
qed simp_all

declare printTree.simps [simp del]

text \<open>
  \<open>run\<close>, on the entry at the root path (\<open>None\<close>: the path does not exist). An exception
  of the \<open>directory_iterator\<close> on the root is not caught. The result is the state and
  what was written to standard error.
\<close>

definition run :: "(nat \<Rightarrow> string) \<Rightarrow> Options \<Rightarrow> string \<Rightarrow> fs_entry option \<Rightarrow> fault + tree_state \<times> out list" where
  "run getHumanReadableSize options rootPath root =
     (let st = \<lparr>dirCount = 0, fileCount = 0, printed = []\<rparr>
      in case root of
           None \<Rightarrow> Inr (st, [Text (''Error: Path does not exist: '' @ rootPath @ ''\<newline>'')])
         | Some r \<Rightarrow>
            (let st = st\<lparr>printed := printed st @ [Line rootPath]\<rparr>
             in if is_directory r
                then (case listing r of
                        None \<Rightarrow> Inl UncaughtException
                      | Some paths \<Rightarrow>
                          (case printTree_loop getHumanReadableSize options (sort_key path_filename paths) [] 0 st of
                             Inl f \<Rightarrow> Inl f
                           | Inr st \<Rightarrow>
                               Inr (st\<lparr>printed := printed st @
                                      [Line [], Line (show_int (dirCount st) @ '' directories, ''
                                          @ show_int (fileCount st) @ '' files'')]\<rparr>, [])))
                else Inr (st, [Text (''Error: Path is not a directory: '' @ rootPath @ ''\<newline>'')])))"

subsection \<open>What the claim on tree -d says\<close>

text \<open>
  No file was counted, and every entry line printed shows an entry of which
  \<open>is_directory\<close> holds (a directory, or a link to one).
\<close>

definition dirs_only :: "tree_state \<Rightarrow> bool" where
  "dirs_only st = (fileCount st = 0 \<and> list_all (\<lambda>l. case l of EntryLine t e \<Rightarrow> is_directory e | _ \<Rightarrow> True) (printed st))"

definition tree_example :: fs_entry where
  "tree_example =
     Entry ''/srv'' True False True True True None
       (Some [Entry ''notes.txt'' False False True True False (Some 12) None [],
              Entry ''sub'' True False True True True None
                (Some [Entry ''run.sh'' False False True True True (Some 40) None [],
                       Entry ''deep'' True False True True True None (Some []) []]) [],
              Entry ''link'' True True True True True None None ''Permission denied'',
              Entry ''.git'' True False True True True None (Some []) []]) []"

section \<open>whois\<close>

record WhoisClient =
  server :: string
  port :: int
  follow_referrals :: bool
  raw_output :: bool
  json_output :: bool
  verbose :: bool
  whois_quiet :: bool
  timeout :: int

definition WhoisClient_init :: WhoisClient where
  "WhoisClient_init =
     \<lparr>server = [], port = 43, follow_referrals = True, raw_output = False, json_output = False,
      verbose = False, whois_quiet = False, timeout = 30\<rparr>"

definition tld_servers :: "(string \<times> string) list" where
  "tld_servers =
     [(''com'', ''whois.verisign-grs.com''), (''net'', ''whois.verisign-grs.com''),
      (''org'', ''whois.pir.org''), (''info'', ''whois.afilias.net''),
      (''biz'', ''whois.neulevel.biz''), (''us'', ''whois.nic.us''), (''uk'', ''whois.nic.uk''),
      (''de'', ''whois.denic.de''), (''fr'', ''whois.afnic.fr''), (''jp'', ''whois.jprs.jp''),
      (''cn'', ''whois.cnnic.cn''), (''ru'', ''whois.tcinet.ru''), (''br'', ''whois.registro.br''),
      (''au'', ''whois.auda.org.au''), (''ca'', ''whois.cira.ca''), (''edu'', ''whois.educause.edu''),
      (''gov'', ''whois.dotgov.gov''), (''mil'', ''whois.nic.mil''), (''int'', ''whois.iana.org'')]"

text \<open>
  The regular expressions of this program are written out as the matchers they denote.
  \<open>split_on c s\<close> cuts \<open>s\<close> at every \<open>c\<close>.
\<close>

fun split_on :: "char \<Rightarrow> string \<Rightarrow> string list" where
  "split_on c [] = [[]]"
| "split_on c (x # xs) =
     (if x = c then [] # split_on c xs
      else (case split_on c xs of p # ps \<Rightarrow> (x # p) # ps | [] \<Rightarrow> [[x]]))"

definition isxdigit_c :: "char \<Rightarrow> bool" where
  "isxdigit_c c = (let n = (of_char c :: nat)
                   in (48 \<le> n \<and> n \<le> 57) \<or> (65 \<le> n \<and> n \<le> 70) \<or> (97 \<le> n \<and> n \<le> 102))"

text \<open>
  \<open>isIPAddress\<close>: the whole query matches \<open>^(?:[0-9]{1,3}\.){3}[0-9]{1,3}$\<close>, four groups
  of one to three digits between dots, or \<open>^(?:[0-9a-fA-F]{1,4}:){7}[0-9a-fA-F]{1,4}$\<close>,
  eight groups of one to four hexadecimal digits between colons.
\<close>

definition isIPAddress :: "string \<Rightarrow> bool" where
  "isIPAddress query =
     ((let parts = split_on CHR ''.'' query
       in length parts = 4 \<and> list_all (\<lambda>p. 1 \<le> length p \<and> length p \<le> 3 \<and> list_all isdigit_c p) parts)
      \<or> (let parts = split_on CHR '':'' query
          in length parts = 8 \<and> list_all (\<lambda>p. 1 \<le> length p \<and> length p \<le> 4 \<and> list_all isxdigit_c p) parts))"

text \<open>\<open>find_last_of\<close>: the index of the last occurrence, \<open>None\<close> for \<open>npos\<close>.\<close>

fun find_last_of :: "string \<Rightarrow> char \<Rightarrow> nat option" where
  "find_last_of [] c = None"
| "find_last_of (x # xs) c =
     (case find_last_of xs c of
        Some i \<Rightarrow> Some (i + 1)
      | None \<Rightarrow> if x = c then Some 0 else None)"

definition extractTLD :: "string \<Rightarrow> string" where
  "extractTLD domain =
     (case find_last_of domain CHR ''.'' of
        Some last_dot \<Rightarrow> if last_dot < length domain - 1 then drop (last_dot + 1) domain else []
      | None \<Rightarrow> [])"

definition selectServer :: "WhoisClient \<Rightarrow> string \<Rightarrow> string" where
  "selectServer client query =
     (if server client \<noteq> [] then server client
      else if isIPAddress query then ''whois.arin.net''
      else (let tld = map tolower_c (extractTLD query)
            in case map_of tld_servers tld of
                 Some s \<Rightarrow> s
               | None \<Rightarrow> ''whois.internic.net''))"

text \<open>
  The network, as \<open>performQuery\<close> meets it at its n-th connection attempt, to a
  server on a port with a query string: one of the calls before the response fails, or
  the query is sent and the connection delivers the chunks that the calls of \<open>recv\<close>
  return until the peer closes it.
\<close>

datatype exchange = SocketFails | ResolveFails | ConnectFails | SendFails | Receives "string list"

type_synonym network = "nat \<Rightarrow> string \<Rightarrow> int \<Rightarrow> string \<Rightarrow> exchange"

text \<open>
  What a run of the client has done so far: the lines written to standard error, and
  the connection attempts made, each with the server and what the network did.
\<close>

record whois_state =
  whois_err :: "string list"
  exchanges :: "(string \<times> exchange) list"

definition whois_start :: whois_state where
  "whois_start = \<lparr>whois_err = [], exchanges = []\<rparr>"

definition querying_message :: "WhoisClient \<Rightarrow> string \<Rightarrow> string \<Rightarrow> string list" where
  "querying_message client whois_server query =
     (if verbose client \<and> \<not> whois_quiet client
      then [''Querying '' @ whois_server @ '' for: '' @ query @ ''\<newline>''] else [])"

text \<open>
  The response that the \<open>recv\<close> loop builds: each chunk is appended as a C string, so
  it ends at its first NUL byte.
\<close>

definition response_text :: "string list \<Rightarrow> string" where
  "response_text chunks = concat (map (takeWhile (\<lambda>c. c \<noteq> CHR 0x00)) chunks)"

text \<open>
  \<open>performQuery\<close>: the exception's text or the response, and the state after the call.
\<close>

definition performQuery ::
  "network \<Rightarrow> WhoisClient \<Rightarrow> string \<Rightarrow> string \<Rightarrow> whois_state \<Rightarrow> (string + string) \<times> whois_state" where
  "performQuery net client query whois_server st =
     (let e = net (length (exchanges st)) whois_server (port client) (query @ [CHR 0x0D, CHR 0x0A]);
          st = st\<lparr>whois_err := whois_err st @ querying_message client whois_server query,
                  exchanges := exchanges st @ [(whois_server, e)]\<rparr>
      in (case e of
            SocketFails \<Rightarrow> Inl ''Failed to create socket''
          | ResolveFails \<Rightarrow> Inl (''Failed to resolve WHOIS server: '' @ whois_server)
          | ConnectFails \<Rightarrow> Inl (''Failed to connect to WHOIS server: '' @ whois_server)
          | SendFails \<Rightarrow> Inl ''Failed to send query''
          | Receives chunks \<Rightarrow>
              (let response = response_text chunks
               in if response = [] then Inl ''No response from WHOIS server'' else Inr response),
          st))"

text \<open>
  The four patterns of \<open>extractReferralServer\<close> have one shape: a literal, matched
  without regard to case, then \<open>\s*\<close>, for the first pattern the literal \<open>whois://\<close>,
  and the captured group \<open>[^\s]+\<close>. \<open>regex_search\<close> takes the leftmost position at
  which all of it matches.
\<close>

fun strip_prefix_nocase :: "string \<Rightarrow> string \<Rightarrow> string option" where
  "strip_prefix_nocase [] s = Some s"
| "strip_prefix_nocase (l # ls) [] = None"
| "strip_prefix_nocase (l # ls) (c # cs) =
     (if tolower_c l = tolower_c c then strip_prefix_nocase ls cs else None)"

definition match_referral_here :: "string \<Rightarrow> string \<Rightarrow> string \<Rightarrow> string option" where
  "match_referral_here literal scheme s =
     (case strip_prefix_nocase literal s of
        None \<Rightarrow> None
      | Some r \<Rightarrow>
          (case strip_prefix_nocase scheme (dropWhile isspace_c r) of
             None \<Rightarrow> None
           | Some r' \<Rightarrow>
               (let captured = takeWhile (\<lambda>c. \<not> isspace_c c) r'
                in if captured = [] then None else Some captured)))"

fun search_referral :: "string \<Rightarrow> string \<Rightarrow> string \<Rightarrow> string option" where
  "search_referral literal scheme [] = match_referral_here literal scheme []"
| "search_referral literal scheme (c # cs) =
     (case match_referral_here literal scheme (c # cs) of
        Some captured \<Rightarrow> Some captured
      | None \<Rightarrow> search_referral literal scheme cs)"

fun first_referral :: "(string \<times> string) list \<Rightarrow> string \<Rightarrow> string" where
  "first_referral [] response = []"
| "first_referral ((literal, scheme) # rest) response =
     (case search_referral literal scheme response of
        Some captured \<Rightarrow> captured
      | None \<Rightarrow> first_referral rest response)"

definition extractReferralServer :: "string \<Rightarrow> string" where
  "extractReferralServer response =
     first_referral
       [(''ReferralServer:'', ''whois://''), (''Whois Server:'', []), (''whois:'', []), (''refer:'', [])]
       response"

text \<open>
  The result of \<open>query\<close>: the exit status, standard output and standard error, and the
  connection attempts that its calls of \<open>performQuery\<close> made, in order. The JSON and
  the summary renderings of a response are written as events.
\<close>

datatype whois_out = Raw string | Json string string string | Summary string | FullResponse string

record whois_result =
  exit_status :: int
  whois_stdout :: "whois_out list"
  final_state :: whois_state

definition output_results :: "WhoisClient \<Rightarrow> string \<Rightarrow> string \<Rightarrow> string \<Rightarrow> whois_out list" where
  "output_results client target response whois_server =
     (if json_output client then [Json target response whois_server]
      else if raw_output client then [Raw response]
      else Summary response # (if verbose client then [FullResponse response] else []))"

text \<open>The \<open>catch\<close> block of \<open>query\<close>, and its normal end.\<close>

definition query_caught :: "WhoisClient \<Rightarrow> string \<Rightarrow> whois_state \<Rightarrow> whois_result" where
  "query_caught client what st =
     \<lparr>exit_status = 1, whois_stdout = [],
      final_state = st\<lparr>whois_err := whois_err st
                         @ (if \<not> whois_quiet client then [''whois: error: '' @ what @ ''\<newline>''] else [])\<rparr>\<rparr>"

definition query_done :: "WhoisClient \<Rightarrow> string \<Rightarrow> string \<Rightarrow> string \<Rightarrow> whois_state \<Rightarrow> whois_result" where
  "query_done client target response whois_server st =
     \<lparr>exit_status = 0, whois_stdout = output_results client target response whois_server,
      final_state = st\<rparr>"

definition query :: "network \<Rightarrow> WhoisClient \<Rightarrow> string \<Rightarrow> whois_result" where
  "query net client target =
     (let whois_server = selectServer client target;
          (r, st) = performQuery net client target whois_server whois_start
      in case r of
           Inl what \<Rightarrow> query_caught client what st
         | Inr response \<Rightarrow>
             if follow_referrals client \<and> \<not> isIPAddress target
             then (let referral_server = extractReferralServer response
                   in if referral_server \<noteq> [] \<and> referral_server \<noteq> whois_server
                      then (let st = st\<lparr>whois_err := whois_err st
                                         @ (if verbose client \<and> \<not> whois_quiet client
                                            then [''Following referral to: '' @ referral_server @ ''\<newline>'']
                                            else [])\<rparr>;
                                (r, st) = performQuery net client target referral_server st
                            in case r of
                                 Inl what \<Rightarrow> query_caught client what st
                               | Inr response \<Rightarrow> query_done client target response referral_server st)
                      else query_done client target response whois_server st)
             else query_done client target response whois_server st)"

text \<open>
  A connection attempt is a round-trip when the query was sent and the response read:
  the network answered \<open>Receives\<close>.
\<close>

fun is_round_trip :: "string \<times> exchange \<Rightarrow> bool" where
  "is_round_trip (whois_server, Receives chunks) = True"
| "is_round_trip (whois_server, e) = False"

definition round_trips :: "whois_result \<Rightarrow> nat" where
  "round_trips r = length (filter is_round_trip (exchanges (final_state r)))"

definition attempts :: "whois_result \<Rightarrow> (string \<times> exchange) list" where
  "attempts r = exchanges (final_state r)"

subsection \<open>Example networks for whois\<close>

definition whois_example_net :: network where
  "whois_example_net n whois_server p q =
     (if whois_server = ''s1'' then Receives [''refer: s2\<newline>'']
      else if whois_server = ''s2'' then Receives [''ok\<newline>'']
      else ConnectFails)"

definition whois_example_client :: WhoisClient where
  "whois_example_client = WhoisClient_init\<lparr>server := ''s1''\<rparr>"

definition unreachable_net :: network where
  "unreachable_net n whois_server p q = ConnectFails"

section \<open>conf-convert\<close>

subsection \<open>The key/value store\<close>





record ConfigConverter =
  input_format :: string
  output_format :: string
  input_file :: string
  output_file :: string
  pretty_print :: bool
  validate_only :: bool
  show_stats :: bool
  preserve_comments :: bool
  indent_size :: int
  root_key :: string
  exclude_keys :: "string list"
  include_keys :: "string list"
  sort_keys :: bool
  minify :: bool
  config_data :: "(string \<times> string) list"
  comments :: "string list"


subsection \<open>Strings\<close>









subsection \<open>The patterns of the line parsers\<close>









subsection \<open>The parsers\<close>

text \<open>Each line loop, on the lines still to read.\<close>

definition add_comment :: "string \<Rightarrow> ConfigConverter \<Rightarrow> ConfigConverter" where
  "add_comment text c = (if preserve_comments c then c\<lparr>comments := comments c @ [text]\<rparr> else c)"















subsection \<open>The generators\<close>
















subsection \<open>convert\<close>








subsection \<open>Inputs of conf-convert\<close>








section \<open>Properties\<close>

text \<open>
  C1 (error reporting and exit status). \<open>stat\<close> on one file that \<open>lstat\<close> cannot find
  writes the error message to standard error, and exits with status 0: \<open>exit_status\<close> is
  initialised to 0 and never assigned.
\<close>

theorem stat_failure_exits_zero:
  "stat_main \<lparr>stat_call = (\<lambda>path. Inl ''No such file or directory''),
              lstat_call = (\<lambda>path. Inl ''No such file or directory'')\<rparr> [] [''/nonexistent'']
     = exited 0 []
         [Text (''stat: cannot stat '' @ [CHR 0x27] @ ''/nonexistent'' @ [CHR 0x27]
                @ '': No such file or directory\<newline>'')]"
  by (simp add: stat_main_def print_stat_def)

text \<open>
  The same holds in general: once the options are read and an operand is given, the exit
  status of \<open>stat\<close> is 0 whatever \<open>stat\<close> and \<open>lstat\<close> return. \<open>tee\<close> likewise returns
  \<open>EXIT_SUCCESS\<close> whenever \<open>main\<close> gets past the options and the allocation, whatever
  \<open>read\<close> and \<open>write\<close> return. A failed \<open>read\<close> leaves \<open>SIZE_MAX\<close> in \<open>bytes_read\<close>, so
  the loop body runs with it; \<open>Read error\<close> is written only when the loop is then left
  through \<open>break\<close>, that is when the \<open>write\<close> to standard output returns something other
  than \<open>-1\<close>.
\<close>

lemma stat_files_status: "status (stat_files env opts several paths c out err) = c"
  by (induction paths arbitrary: out err) (auto simp: exited_def Let_def split: prod.splits)

lemma stat_main_status:
  assumes "stat_options opts
             \<lparr>format_type = FORMAT_DEFAULT, time_format = TIME_NORMAL, dereference = False,
              file_system = False, custom_format = None\<rparr> = Inr o'"
    and "args \<noteq> []"
  shows "status (stat_main env opts args) = 0"
  using assms by (simp add: stat_main_def stat_files_status)

lemma tee_main_status: "tee_main env opts names = Inr (c, st) \<Longrightarrow> c = 0"
  by (auto simp: tee_main_def Let_def split: sum.splits if_splits prod.splits)

lemma tee_read_error_exits_zero:
  "tee_main \<lparr>malloc_ok = True, open_call = (\<lambda>name flags. (3, [])),
             read_calls = [Inl ''Input/output error''],
             write_call = (\<lambda>fd k n. (4096, ''Bad address'')), close_call = (\<lambda>fd. None)\<rparr> [] []
     = Inr (0, \<lparr>file_descriptors = [], effects = [Wrote 1 []],
                messages = [Perror ''Error writing to standard output'', Perror ''Read error'']\<rparr>)"
  by (simp add: tee_main_def STDOUT_FILENO_def SIZE_MAX_def to_size_t_def)

subsection \<open>Signals: the loops of yes, no and ping, and the handler of tee\<close>

lemma yes_loop_signalled:
  assumes "\<forall>j<k. \<not> sigs j" "sigs k" "limit < 0 \<or> int k \<le> limit" "c \<le> int k" "0 \<le> c"
  shows "yes_loop sigs line limit True c out = Some (out @ replicate (k - nat c) (Text line))"
  using assms(4,5)
proof (induction "k - nat c" arbitrary: c out)
  case 0
  then have "nat c = k" by simp
  with assms(2) show ?case
    by (subst yes_loop.simps) (simp add: handle_signal_def)
next
  case (Suc m)
  then have lt: "nat c < k" by simp
  with assms(1) have ns: "\<not> sigs (nat c)" by simp
  from lt Suc.prems have c: "c < int k" by simp
  with assms(3) have go: "limit < 0 \<or> c < limit" by auto
  from Suc.hyps(2) Suc.prems have m: "m = k - nat (c + 1)" by simp
  from c Suc.prems have p: "c + 1 \<le> int k" "0 \<le> c + 1" by simp_all
  from lt Suc.prems have r: "k - nat c = Suc (k - nat (c + 1))" by simp
  show ?case
    using ns go Suc.hyps(1) [OF m p, of "out @ [Text line]"]
    by (subst yes_loop.simps) (auto simp: r replicate_app_Cons_same)
qed

lemma no_forever_signalled:
  assumes "\<forall>j<k. \<not> sigs j" "sigs k" "running u" "i \<le> k"
  shows "no_forever sigs formatted u i out
           = Some (out @ replicate (k - i) (Text (formatted @ ''\<newline>'')))"
  using assms(4)
proof (induction "k - i" arbitrary: i out)
  case 0
  then have "i = k" by simp
  with assms(2) show ?case
    by (subst no_forever.simps) (simp add: no_signalHandler_def)
next
  case (Suc m)
  then have lt: "i < k" by simp
  with assms(1) have ns: "\<not> sigs i" by simp
  from Suc.hyps(2) have m: "m = k - (i + 1)" by simp
  from lt have p: "i + 1 \<le> k" by simp
  from lt have r: "k - i = Suc (k - (i + 1))" by simp
  show ?case
    using ns assms(3) Suc.hyps(1) [OF m p, of "out @ [Text (formatted @ ''\<newline>'')]"]
    by (subst no_forever.simps) (simp add: r replicate_app_Cons_same)
qed

lemma no_counted_signalled:
  assumes "\<forall>j<k. \<not> sigs j" "sigs k" "running u" "int k \<le> count u" "i \<le> int k" "0 \<le> i"
  shows "no_counted sigs formatted u i out
           = out @ replicate (k - nat i) (Text (formatted @ ''\<newline>''))"
  using assms(5,6)
proof (induction "k - nat i" arbitrary: i out)
  case 0
  then have "nat i = k" by simp
  with assms(2) show ?case
    by (subst no_counted.simps) (simp add: no_signalHandler_def)
next
  case (Suc m)
  then have lt: "nat i < k" by simp
  with assms(1) have ns: "\<not> sigs (nat i)" by simp
  from lt Suc.prems have c: "i < int k" by simp
  with assms(4) have go: "i < count u" by simp
  from Suc.hyps(2) Suc.prems have m: "m = k - nat (i + 1)" by simp
  from c Suc.prems have p: "i + 1 \<le> int k" "0 \<le> i + 1" by simp_all
  from lt Suc.prems have r: "k - nat i = Suc (k - nat (i + 1))" by simp
  show ?case
    using ns go assms(3) Suc.hyps(1) [OF m p, of "out @ [Text (formatted @ ''\<newline>'')]"]
    by (subst no_counted.simps) (simp add: r replicate_app_Cons_same)
qed

text \<open>
  \<open>ping\<close>: while no signal has been delivered the flag is set, and after the signal it
  is cleared for good; every entry of \<open>pinged\<close> follows a read of the flag that found it
  set.
\<close>

lemma ping_check_signalled:
  assumes "\<forall>j<k. \<not> sigs j" "sigs k" "ping_running p \<longleftrightarrow> ping_checks p \<le> k"
  shows "ping_checks (ping_check sigs p) = ping_checks p + 1"
    and "ping_running (ping_check sigs p) \<longleftrightarrow> ping_checks p < k"
    and "pinged (ping_check sigs p) = pinged p"
    and "targets (ping_check sigs p) = targets p"
    and "ping_count (ping_check sigs p) = ping_count p"
    and "ping_continuous (ping_check sigs p) = ping_continuous p"
proof -
  show "ping_running (ping_check sigs p) \<longleftrightarrow> ping_checks p < k"
  proof (cases "ping_checks p < k")
    case True
    with assms show ?thesis by (simp add: ping_check_def ping_signalHandler_def Let_def)
  next
    case False
    show ?thesis
    proof (cases "ping_checks p = k")
      case True
      with assms show ?thesis by (simp add: ping_check_def ping_signalHandler_def Let_def)
    next
      case False
      with \<open>\<not> ping_checks p < k\<close> assms(3) have "\<not> ping_running p" by simp
      with \<open>\<not> ping_checks p < k\<close> show ?thesis
        by (simp add: ping_check_def ping_signalHandler_def Let_def)
    qed
  qed
qed (simp_all add: ping_check_def ping_signalHandler_def Let_def)

lemma ping_targets_signalled:
  assumes "\<forall>j<k. \<not> sigs j" "sigs k"
  shows "(ping_running p \<longleftrightarrow> ping_checks p \<le> k) \<Longrightarrow>
         ping_targets sigs ts p sequence = (p', sequence') \<Longrightarrow>
         (ping_running p' \<longleftrightarrow> ping_checks p' \<le> k)
         \<and> ping_checks p \<le> ping_checks p'
         \<and> length (pinged p') + min k (ping_checks p) \<le> length (pinged p) + min k (ping_checks p')
         \<and> targets p' = targets p \<and> ping_count p' = ping_count p
         \<and> ping_continuous p' = ping_continuous p"
proof (induction ts arbitrary: p sequence)
  case Nil
  then show ?case by simp
next
  case (Cons target rest)
  let ?p1 = "ping_check sigs p"
  note c = ping_check_signalled [OF assms Cons.prems(1)]
  show ?case
  proof (cases "ping_running ?p1")
    case False
    with Cons.prems(2) have "p' = ?p1" by (simp add: Let_def)
    with False c show ?thesis by auto
  next
    case True
    let ?p2 = "?p1\<lparr>pinged := pinged ?p1 @ [(target, sequence)]\<rparr>"
    from True c have lt: "ping_checks p < k" by simp
    with True c have inv: "ping_running ?p2 \<longleftrightarrow> ping_checks ?p2 \<le> k" by simp
    from True Cons.prems(2)
    have "ping_targets sigs rest ?p2 (sequence + 1) = (p', sequence')" by (simp add: Let_def)
    from Cons.IH [OF inv this] c lt show ?thesis by simp
  qed
qed

lemma ping_loop_signalled:
  assumes "\<forall>j<k. \<not> sigs j" "sigs k"
  shows "(ping_running p \<longleftrightarrow> ping_checks p \<le> k) \<Longrightarrow>
         \<exists>p'. ping_loop sigs p sequence completed = Some p'
              \<and> length (pinged p') + min k (ping_checks p) \<le> length (pinged p) + k
              \<and> (ping_continuous p \<longrightarrow> \<not> ping_running p')"
proof (induction "Suc k - ping_checks p" arbitrary: p sequence completed rule: less_induct)
  case less
  let ?p1 = "ping_check sigs p"
  note c = ping_check_signalled [OF assms less.prems]
  show ?case
  proof (cases "ping_running ?p1 \<and> (ping_continuous ?p1 \<or> completed < ping_count ?p1)")
    case False
    then have "ping_loop sigs p sequence completed = Some ?p1"
      by (subst ping_loop.simps) (auto simp: Let_def)
    with False c show ?thesis by auto
  next
    case True
    with c have lt: "ping_checks p < k" by simp
    with c have inv: "ping_running ?p1 \<longleftrightarrow> ping_checks ?p1 \<le> k" by simp
    obtain p2 sequence2 where t: "ping_targets sigs (targets ?p1) ?p1 sequence = (p2, sequence2)"
      by fastforce
    note ts = ping_targets_signalled [OF assms inv t]
    show ?thesis
    proof (cases "\<not> ping_continuous p2 \<and> completed + 1 \<ge> ping_count p2")
      case stop: True
      with True t have "ping_loop sigs p sequence completed = Some p2"
        by (subst ping_loop.simps) (auto simp: Let_def)
      with stop ts c lt show ?thesis by auto
    next
      case False
      with True t have u: "ping_loop sigs p sequence completed
                             = ping_loop sigs p2 sequence2 (completed + 1)"
        by (subst ping_loop.simps) (auto simp: Let_def)
      from ts have "ping_checks ?p1 \<le> ping_checks p2" by simp
      with c(1) lt have "Suc k - ping_checks p2 < Suc k - ping_checks p" by arith
      from less.hyps [OF this, of sequence2 "completed + 1"] ts
      obtain p' where r: "ping_loop sigs p2 sequence2 (completed + 1) = Some p'"
        "length (pinged p') + min k (ping_checks p2) \<le> length (pinged p2) + k"
        "ping_continuous p2 \<longrightarrow> \<not> ping_running p'"
        by auto
      from ts have "length (pinged p2) + min k (ping_checks ?p1)
                      \<le> length (pinged ?p1) + min k (ping_checks p2)" by simp
      with r(2) c(1,3) lt
      have "length (pinged p') + min k (ping_checks p) \<le> length (pinged p) + k" by arith
      with u r(1,3) ts c show ?thesis by simp
    qed
  qed
qed

lemma handler_runs_first:
  assumes "first_delivery delivered k" "\<And>s. installed s = Handler"
  shows "\<forall>j<k. \<not> handler_runs installed delivered j" "handler_runs installed delivered k"
  using assms by (auto simp: first_delivery_def handler_runs_def split: option.splits)

lemma all_installed:
  "yes_installed s = Handler" "no_installed s = Handler" "ping_installed s = Handler"
  by (cases s; simp)+

text \<open>
  C2 (signal handlers), as amended. \<open>yes\<close>, \<open>no\<close> and \<open>ping\<close> install for SIGINT and for
  SIGTERM a handler that only clears the flag (\<open>keep_running\<close>, \<open>running\<close>) and returns,
  so that the program resumes. Their loops read the flag before each iteration: when the
  first signal, SIGINT or SIGTERM, arrives before the \<open>k\<close>-th read, \<open>yes\<close> (with no limit,
  or a limit of at least \<open>k\<close>) and \<open>no\<close> (in its endless loop, and in its counted loop
  with a count of at least \<open>k\<close>) have written their line exactly \<open>k\<close> times and leave the
  loop in the normal way; \<open>ping\<close> leaves its loop too, with status 0, after at most \<open>k\<close>
  more pings, and in continuous mode with the flag cleared. \<open>tee\<close> has no such flag:
  SIGINT is ignored with \<open>-i\<close>, and otherwise its handler writes a message in verbose
  mode and ends the process itself with status 0; SIGTERM keeps its default action.
\<close>

theorem cooperative_cancellation:
  "yes_deliver s keep_running = Resumes False
   \<and> no_deliver s u = Resumes (u\<lparr>running := False\<rparr>)
   \<and> ping_deliver s p = Resumes (p\<lparr>ping_running := False\<rparr>)
   \<and> (first_delivery delivered k \<and> (limit < 0 \<or> int k \<le> limit) \<longrightarrow>
        yes_loop (handler_runs yes_installed delivered) line limit True 0 []
          = Some (replicate k (Text line)))
   \<and> (first_delivery delivered k \<and> running u \<longrightarrow>
        no_forever (handler_runs no_installed delivered) formatted u 0 []
          = Some (replicate k (Text (formatted @ ''\<newline>''))))
   \<and> (first_delivery delivered k \<and> running v \<and> int k \<le> count v \<longrightarrow>
        no_counted (handler_runs no_installed delivered) formatted v 0 []
          = replicate k (Text (formatted @ ''\<newline>'')))
   \<and> (first_delivery delivered k \<and> ping_running p \<and> ping_checks p = 0 \<and> targets p \<noteq> [] \<longrightarrow>
        (\<exists>p'. ping_run (handler_runs ping_installed delivered) p = Some (0, p')
              \<and> length (pinged p') \<le> length (pinged p) + k
              \<and> (ping_continuous p \<longrightarrow> \<not> ping_running p')))
   \<and> tee_deliver flags SIGINT err
       = (if ignore_interrupts flags then Resumes err
          else Exits 0 (err @ (if verbose_mode flags then [Text ''Received signal 2\<newline>''] else [])))
   \<and> tee_deliver flags SIGTERM err = KilledBy SIGTERM"
proof -
  have y: "yes_deliver s keep_running = Resumes False"
    by (cases s) (simp_all add: yes_deliver_def deliver_def handle_signal_def)
  have n: "no_deliver s u = Resumes (u\<lparr>running := False\<rparr>)"
    by (cases s) (simp_all add: no_deliver_def deliver_def no_signalHandler_def)
  have g: "ping_deliver s p = Resumes (p\<lparr>ping_running := False\<rparr>)"
    by (cases s) (simp_all add: ping_deliver_def deliver_def ping_signalHandler_def)
  have yl: "first_delivery delivered k \<and> (limit < 0 \<or> int k \<le> limit) \<longrightarrow>
        yes_loop (handler_runs yes_installed delivered) line limit True 0 []
          = Some (replicate k (Text line))"
  proof (intro impI, elim conjE)
    assume a: "first_delivery delivered k" "limit < 0 \<or> int k \<le> limit"
    note f = handler_runs_first [OF a(1), of yes_installed, OF all_installed(1)]
    from yes_loop_signalled [OF f a(2), of 0 line "[]"]
    show "yes_loop (handler_runs yes_installed delivered) line limit True 0 []
            = Some (replicate k (Text line))"
      by simp
  qed
  have nf: "first_delivery delivered k \<and> running u \<longrightarrow>
        no_forever (handler_runs no_installed delivered) formatted u 0 []
          = Some (replicate k (Text (formatted @ ''\<newline>'')))"
  proof (intro impI, elim conjE)
    assume a: "first_delivery delivered k" "running u"
    note f = handler_runs_first [OF a(1), of no_installed, OF all_installed(2)]
    from no_forever_signalled [OF f a(2), of 0 formatted "[]"]
    show "no_forever (handler_runs no_installed delivered) formatted u 0 []
            = Some (replicate k (Text (formatted @ ''\<newline>'')))"
      by simp
  qed
  have nc: "first_delivery delivered k \<and> running v \<and> int k \<le> count v \<longrightarrow>
        no_counted (handler_runs no_installed delivered) formatted v 0 []
          = replicate k (Text (formatted @ ''\<newline>''))"
  proof (intro impI, elim conjE)
    assume a: "first_delivery delivered k" "running v" "int k \<le> count v"
    note f = handler_runs_first [OF a(1), of no_installed, OF all_installed(2)]
    from no_counted_signalled [OF f a(2,3), of 0 formatted "[]"]
    show "no_counted (handler_runs no_installed delivered) formatted v 0 []
            = replicate k (Text (formatted @ ''\<newline>''))"
      by simp
  qed
  have pl: "first_delivery delivered k \<and> ping_running p \<and> ping_checks p = 0 \<and> targets p \<noteq> [] \<longrightarrow>
        (\<exists>p'. ping_run (handler_runs ping_installed delivered) p = Some (0, p')
              \<and> length (pinged p') \<le> length (pinged p) + k
              \<and> (ping_continuous p \<longrightarrow> \<not> ping_running p'))"
  proof (intro impI, elim conjE)
    assume a: "first_delivery delivered k" "ping_running p" "ping_checks p = 0" "targets p \<noteq> []"
    note f = handler_runs_first [OF a(1), of ping_installed, OF all_installed(3)]
    from a have i: "ping_running p \<longleftrightarrow> ping_checks p \<le> k" by simp
    from ping_loop_signalled [OF f i, of 1 0] a(3)
    obtain p' where "ping_loop (handler_runs ping_installed delivered) p 1 0 = Some p'"
      "length (pinged p') \<le> length (pinged p) + k" "ping_continuous p \<longrightarrow> \<not> ping_running p'"
      by auto
    with a(4) show "\<exists>p'. ping_run (handler_runs ping_installed delivered) p = Some (0, p')
              \<and> length (pinged p') \<le> length (pinged p) + k
              \<and> (ping_continuous p \<longrightarrow> \<not> ping_running p')"
      by (simp add: ping_run_def)
  qed
  have d: "decimal 2 = ''2''" by code_simp
  have ti: "tee_deliver flags SIGINT err
       = (if ignore_interrupts flags then Resumes err
          else Exits 0 (err @ (if verbose_mode flags then [Text ''Received signal 2\<newline>''] else [])))"
    by (simp add: tee_deliver_def deliver_def tee_signal_handler_def show_int_def d)
  have tt: "tee_deliver flags SIGTERM err = KilledBy SIGTERM"
    by (simp add: tee_deliver_def deliver_def)
  from y n g yl nf nc pl ti tt show ?thesis by blast
qed

theorem cooperative_cancellation_witness:
  "first_delivery (sigterm_at 2) 2
   \<and> yes_loop (handler_runs yes_installed (sigterm_at 2)) ''y\<newline>'' (- 1) True 0 []
       = Some [Text ''y\<newline>'', Text ''y\<newline>'']
   \<and> no_forever (handler_runs no_installed (sigterm_at 2)) ''no'' NoUtility_init 0 []
       = Some [Text ''no\<newline>'', Text ''no\<newline>'']
   \<and> no_counted (handler_runs no_installed (sigterm_at 2)) ''no'' (NoUtility_init\<lparr>count := 5\<rparr>) 0 []
       = [Text ''no\<newline>'', Text ''no\<newline>'']
   \<and> (\<exists>p'. ping_run (handler_runs ping_installed (sigterm_at 2)) ping_example = Some (0, p')
            \<and> length (pinged p') \<le> 2 \<and> \<not> ping_running p')"
proof -
  have f: "first_delivery (sigterm_at 2) 2" by (simp add: first_delivery_def sigterm_at_def)
  have r: "running NoUtility_init" "running (NoUtility_init\<lparr>count := 5\<rparr>)"
    "int 2 \<le> count (NoUtility_init\<lparr>count := 5\<rparr>)"
    by (simp_all add: NoUtility_init_def)
  have p: "ping_running ping_example" "ping_checks ping_example = 0"
    "targets ping_example \<noteq> []" "ping_continuous ping_example" "pinged ping_example = []"
    by (simp_all add: ping_example_def)
  from cooperative_cancellation [of SIGINT True NoUtility_init ping_example "sigterm_at 2" 2 "- 1"
      "''y\<newline>''" "''no''" "NoUtility_init\<lparr>count := 5\<rparr>"] f r p
  show ?thesis by (simp add: numeral_2_eq_2)
qed

text \<open>
  The claim as stated fails for \<open>tee\<close>: its handler does not set a flag and return, it
  writes a message in verbose mode and calls \<open>exit(EXIT_SUCCESS)\<close>.
\<close>

theorem tee_handler_exits_counterexample:
  "tee_signal_handler
     \<lparr>append_flag = False, ignore_interrupts = False, output_linebuffered = False,
      verbose_mode = True\<rparr> 2 []
   = (0, [Text ''Received signal 2\<newline>''])"
proof -
  have "decimal 2 = ''2''" by code_simp
  then show ?thesis by (simp add: tee_signal_handler_def show_int_def)
qed

subsection \<open>conf-convert: INI to JSON\<close>

lemma split_on_nonempty: "split_on c s \<noteq> []"
  by (induction s) (auto split: list.splits)

lemma split_on_no_sep: "c \<notin> set s \<Longrightarrow> split_on c s = [s]"
  by (induction s) auto


























subsection \<open>whois: connection attempts and round-trips of a query\<close>

lemma is_round_trip_iff: "is_round_trip (s, e) \<longleftrightarrow> (\<exists>chunks. e = Receives chunks)"
  by (cases e) simp_all

text \<open>
  C4 (whois, query). The claim fails where it says that one round-trip is always made:
  a query makes one or two connection attempts, and an attempt is a round-trip only when
  the network lets the query be sent. The first attempt goes to the selected server, as
  the first connection of the process. A second attempt is made exactly when the first
  one returned a non-empty response, referral-following is enabled, the query is not an
  IP address, and the referral server extracted from that response is non-empty and
  differs from the first server; it goes to that referral server, with the same query
  line. So at most two round-trips are made, and none exactly when the first attempt
  fails before the response. The exit status is 0 exactly when the last attempt returned
  a non-empty response, which is then what is printed, with the server of that attempt;
  otherwise the status is 1 and nothing is printed.
\<close>

theorem query_round_trips:
  "(let r = query net client target;
        whois_server = selectServer client target;
        line = target @ [CHR 0x0D, CHR 0x0A];
        first = net 0 whois_server (port client) line
    in attempts r \<noteq> [] \<and> hd (attempts r) = (whois_server, first)
     \<and> length (attempts r) \<le> 2
     \<and> round_trips r \<le> length (attempts r)
     \<and> (round_trips r = 0 \<longleftrightarrow> (\<forall>chunks. first \<noteq> Receives chunks))
     \<and> (length (attempts r) = 2 \<longleftrightarrow>
          (\<exists>chunks. first = Receives chunks \<and> response_text chunks \<noteq> []
             \<and> follow_referrals client \<and> \<not> isIPAddress target
             \<and> extractReferralServer (response_text chunks) \<noteq> []
             \<and> extractReferralServer (response_text chunks) \<noteq> whois_server
             \<and> attempts r =
                 [(whois_server, first),
                  (extractReferralServer (response_text chunks),
                   net 1 (extractReferralServer (response_text chunks)) (port client) line)]))
     \<and> (exit_status r = 0 \<longleftrightarrow>
          (\<exists>chunks. snd (last (attempts r)) = Receives chunks \<and> response_text chunks \<noteq> []
             \<and> whois_stdout r
                = output_results client target (response_text chunks) (fst (last (attempts r)))))
     \<and> (exit_status r = 0 \<or> exit_status r = 1 \<and> whois_stdout r = []))"
proof (cases "net 0 (selectServer client target) (port client) (target @ [CHR 0x0D, CHR 0x0A])")
  case (Receives chunks)
  show ?thesis
  proof (cases "response_text chunks \<noteq> [] \<and> follow_referrals client \<and> \<not> isIPAddress target
                \<and> extractReferralServer (response_text chunks) \<noteq> []
                \<and> extractReferralServer (response_text chunks) \<noteq> selectServer client target")
    case True
    with Receives show ?thesis
      by (cases "net 1 (extractReferralServer (response_text chunks)) (port client)
                   (target @ [CHR 0x0D, CHR 0x0A])")
         (simp_all add: query_def performQuery_def whois_start_def query_caught_def query_done_def
            attempts_def round_trips_def Let_def)
  next
    case False
    with Receives show ?thesis
      by (auto simp: query_def performQuery_def whois_start_def query_caught_def query_done_def
            attempts_def round_trips_def Let_def)
  qed
qed (simp_all add: query_def performQuery_def whois_start_def query_caught_def query_done_def
       attempts_def round_trips_def Let_def)

lemma whois_example_select: "selectServer whois_example_client t = ''s1''"
  by (simp add: selectServer_def whois_example_client_def WhoisClient_init_def)

lemma whois_example_text: "response_text [''refer: s2\<newline>''] = ''refer: s2\<newline>''"
  by (simp add: response_text_def)

lemma whois_example_referral: "extractReferralServer ''refer: s2\<newline>'' = ''s2''"
  by code_simp

lemma whois_example_follow:
  "follow_referrals whois_example_client \<and> \<not> isIPAddress ''a.b''"
  by (simp add: whois_example_client_def WhoisClient_init_def isIPAddress_def)

theorem query_round_trips_witness:
  "length (attempts (query whois_example_net whois_example_client ''a.b'')) = 2
   \<and> attempts (query whois_example_net whois_example_client ''a.b'')
       = [(''s1'', Receives [''refer: s2\<newline>'']), (''s2'', Receives [''ok\<newline>''])]
   \<and> round_trips (query whois_example_net whois_example_client ''a.b'') \<le> 2
   \<and> follow_referrals whois_example_client \<and> \<not> isIPAddress ''a.b''
   \<and> extractReferralServer (response_text [''refer: s2\<newline>'']) = ''s2''"
proof -
  have t: "response_text [''ok\<newline>''] = ''ok\<newline>''" by (simp add: response_text_def)
  have a: "attempts (query whois_example_net whois_example_client ''a.b'')
             = [(''s1'', Receives [''refer: s2\<newline>'']), (''s2'', Receives [''ok\<newline>''])]"
    using whois_example_follow t
    by (simp add: query_def performQuery_def whois_start_def query_done_def attempts_def Let_def
          whois_example_select whois_example_text whois_example_referral whois_example_net_def)
  have l: "length (attempts (query whois_example_net whois_example_client ''a.b'')) = 2
           \<and> round_trips (query whois_example_net whois_example_client ''a.b'') \<le> 2"
    using query_round_trips [of whois_example_net whois_example_client "''a.b''"]
          whois_example_follow t
    by (simp add: Let_def whois_example_select whois_example_text whois_example_referral
          whois_example_net_def a)
  from l a whois_example_follow whois_example_text whois_example_referral show ?thesis by simp
qed

theorem query_unreachable_counterexample:
  "round_trips (query unreachable_net (whois_example_client\<lparr>follow_referrals := False\<rparr>) ''a.b'') = 0
   \<and> attempts (query unreachable_net (whois_example_client\<lparr>follow_referrals := False\<rparr>) ''a.b'')
       = [(''s1'', ConnectFails)]
   \<and> exit_status (query unreachable_net (whois_example_client\<lparr>follow_referrals := False\<rparr>) ''a.b'') = 1"
  by (simp add: query_def performQuery_def whois_start_def query_caught_def attempts_def
        round_trips_def Let_def selectServer_def whois_example_client_def WhoisClient_init_def
        unreachable_net_def)

lemma unat_u8_lt: "unat (b :: u8) < 256"
  by (rule order_less_le_trans [OF unsigned_less]) simp

lemma load16_le: "load16 be b0 b1 \<le> 65535"
proof -
  have "unat b0 < 256" "unat b1 < 256" by (rule unat_u8_lt)+
  then show ?thesis by (simp add: load16_def)
qed

lemma words16_le: "w \<in> set (words16 be data) \<Longrightarrow> w \<le> 65535"
proof (induction be data rule: words16.induct)
  case (1 be b0 b1 rest)
  then show ?case using load16_le by auto
next
  case (2 be b)
  have "unat b < 256" by (rule unat_u8_lt)
  with 2 show ?case by simp
next
  case (3 be)
  then show ?case by simp
qed

lemma sum_words_total:
  "sum_words be data s = (s + sum_list (words16 be data)) mod 2 ^ 32 \<or> (data = [] \<and> sum_words be data s = s)"
  by (induction be data s rule: sum_words.induct) (auto simp: mod_simps add.assoc)

lemma sum_list_words16_le: "sum_list (words16 be data) \<le> 65535 * ((length data + 1) div 2)"
proof (induction be data rule: words16.induct)
  case (1 be b0 b1 rest)
  then show ?case using load16_le [of be b0 b1] by simp
next
  case (2 be b)
  have "unat b < 256" by (rule unat_u8_lt)
  then show ?case by simp
next
  case (3 be)
  then show ?case by simp
qed

lemma fold_step_residue:
  fixes s :: nat
  shows "(s mod 65536 + s div 65536) mod 65535 = s mod 65535"
proof -
  define q where "q = s div 65536"
  define r where "r = s mod 65536"
  have "s = 65536 * q + r" by (simp add: q_def r_def)
  then have "s = (r + q) + 65535 * q" by linarith
  then have "s mod 65535 = (r + q) mod 65535" by (metis mod_mult_self2)
  then show ?thesis by (simp add: q_def r_def)
qed

lemma fold_carries_props:
  "s < 2 ^ 32 \<Longrightarrow> fold_carries s \<le> 65535 \<and> fold_carries s mod 65535 = s mod 65535
     \<and> (fold_carries s = 0 \<longleftrightarrow> s = 0)"
proof (induction s rule: fold_carries.induct)
  case (1 s)
  show ?case
  proof (cases "s div 2 ^ 16 \<noteq> 0")
    case True
    let ?t = "s mod 2 ^ 16 + s div 2 ^ 16"
    have "s mod 2 ^ 16 < 2 ^ 16" by simp
    moreover from 1(2) have "s div 2 ^ 16 < 2 ^ 16" by (simp add: less_mult_imp_div_less)
    ultimately have tlt: "?t < 2 ^ 32" by simp
    then have t: "?t mod 2 ^ 32 = ?t" by simp
    from True have tpos: "?t \<noteq> 0" "s \<noteq> 0" by auto
    have res: "?t mod 65535 = s mod 65535" using fold_step_residue [of s] by simp
    have unf: "fold_carries s = fold_carries ?t"
      using True t by (subst fold_carries.simps) simp
    from 1(1) [OF True] t tlt have "fold_carries ?t \<le> 65535 \<and> fold_carries ?t mod 65535 = ?t mod 65535
        \<and> (fold_carries ?t = 0 \<longleftrightarrow> ?t = 0)" by simp
    with unf res tpos show ?thesis by simp
  next
    case False
    then have "s < 65536" by (simp add: div_eq_0_iff)
    moreover from False have "fold_carries s = s" by (subst fold_carries.simps) simp
    ultimately show ?thesis by simp
  qed
qed

lemma ones_add_eq:
  assumes "a \<le> 65535" "b \<le> 65535"
  shows "ones_add a b = (if a + b < 65536 then a + b else a + b - 65535)"
proof (cases "a + b < 65536")
  case True
  then show ?thesis by (simp add: ones_add_def)
next
  case False
  define n where "n = a + b - 65536"
  from False assms have n: "a + b = n + 65536" "n < 65536" by (simp_all add: n_def)
  have "(n + 65536) div 65536 = 1" "(n + 65536) mod 65536 = n" using n(2) by simp_all
  with n False show ?thesis by (simp add: ones_add_def)
qed

lemma ones_add_residue:
  assumes "a \<le> 65535" "b \<le> 65535"
  shows "ones_add a b mod 65535 = (a + b) mod 65535"
proof (cases "a + b < 65536")
  case True
  then show ?thesis by (simp add: ones_add_eq [OF assms])
next
  case False
  then have "a + b = (a + b - 65535) + 65535 * 1" by simp
  then have "(a + b) mod 65535 = (a + b - 65535) mod 65535" by (metis mod_mult_self2)
  with False show ?thesis by (simp add: ones_add_eq [OF assms])
qed

lemma ones_add_props:
  assumes "a \<le> 65535" "b \<le> 65535"
  shows "ones_add a b \<le> 65535 \<and> ones_add a b mod 65535 = (a + b) mod 65535
         \<and> (ones_add a b = 0 \<longleftrightarrow> a + b = 0)"
  using assms ones_add_residue [OF assms] by (auto simp: ones_add_eq [OF assms])

lemma foldl_ones_add_props:
  "a \<le> 65535 \<Longrightarrow> \<forall>w \<in> set ws. w \<le> 65535 \<Longrightarrow>
   foldl ones_add a ws \<le> 65535 \<and> foldl ones_add a ws mod 65535 = (a + sum_list ws) mod 65535
   \<and> (foldl ones_add a ws = 0 \<longleftrightarrow> a + sum_list ws = 0)"
proof (induction ws arbitrary: a)
  case Nil
  then show ?case by simp
next
  case (Cons w ws)
  from Cons.prems have w: "w \<le> 65535" and ws: "\<forall>w \<in> set ws. w \<le> 65535" by simp_all
  note p = ones_add_props [OF Cons.prems(1) w]
  from p have le: "ones_add a w \<le> 65535" by simp
  note ih = Cons.IH [OF le ws]
  have "(ones_add a w + sum_list ws) mod 65535 = (a + w + sum_list ws) mod 65535"
    using p by (metis mod_add_left_eq)
  with ih p show ?case by (simp add: add.assoc)
qed

lemma same_residue_eq:
  fixes x y :: nat
  assumes "x \<le> 65535" "y \<le> 65535" "x mod 65535 = y mod 65535" "x = 0 \<longleftrightarrow> y = 0"
  shows "x = y"
proof -
  have r: "z mod 65535 = (if z = 65535 then 0 else z)" if "z \<le> 65535" for z :: nat
    using that by simp
  from assms(3) r [OF assms(1)] r [OF assms(2)] assms(4) show ?thesis
    by (auto split: if_splits)
qed

lemma complement16:
  fixes f :: nat
  assumes "f \<le> 65535"
  shows "(2 ^ 32 - 1 - f) mod 2 ^ 16 = 65535 - f"
proof -
  from assms have "(2 ^ 32 - 1 - f) = (65535 - f) + 65536 * 65535" by simp
  then have "(2 ^ 32 - 1 - f) mod 65536 = (65535 - f) mod 65536" by (metis mod_mult_self2)
  then show ?thesis by simp
qed

text \<open>
  C5 (ping, calculateChecksum), as amended. For every buffer of at most 131074 bytes
  (65537 words), in either byte order, the routine returns the Internet checksum: the
  complement of the end-around-carry sum of the 16-bit words, a trailing odd byte added
  as a byte. Up to that length the 32-bit accumulator cannot wrap.
\<close>

theorem checksum_ok:
  assumes "length data \<le> 131074"
  shows "calculateChecksum be data = internet_checksum be data"
proof -
  let ?S = "sum_list (words16 be data)"
  have "?S \<le> 65535 * ((length data + 1) div 2)" by (rule sum_list_words16_le)
  also have "\<dots> \<le> 65535 * 65537" using assms by simp
  finally have S: "?S < 2 ^ 32" by simp
  have sw: "sum_words be data 0 = ?S"
    using sum_words_total [of be data 0] S by auto
  note f = fold_carries_props [OF S]
  have g: "foldl ones_add 0 (words16 be data) \<le> 65535 \<and>
           foldl ones_add 0 (words16 be data) mod 65535 = (0 + ?S) mod 65535 \<and>
           (foldl ones_add 0 (words16 be data) = 0 \<longleftrightarrow> 0 + ?S = 0)"
    by (rule foldl_ones_add_props) (auto dest: words16_le)
  have eq: "fold_carries ?S = foldl ones_add 0 (words16 be data)"
    by (rule same_residue_eq) (use f g in simp_all)
  from f have "fold_carries ?S \<le> 65535" by simp
  then have "(2 ^ 32 - 1 - fold_carries ?S) mod 2 ^ 16 = 65535 - fold_carries ?S"
    by (rule complement16)
  then show ?thesis
    by (simp add: calculateChecksum_def internet_checksum_def sw eq)
qed

theorem checksum_ok_witness:
  "length [8, 0, 0, 0, 0x12, 0x34, 0, 1, 0xAB :: u8] \<le> 131074
   \<and> calculateChecksum False [8, 0, 0, 0, 0x12, 0x34, 0, 1, 0xAB]
       = internet_checksum False [8, 0, 0, 0, 0x12, 0x34, 0, 1, 0xAB]
   \<and> internet_checksum False [8, 0, 0, 0, 0x12, 0x34, 0, 1, 0xAB] = 0xCA3A"
proof -
  have l: "length [8, 0, 0, 0, 0x12, 0x34, 0, 1, 0xAB :: u8] \<le> 131074" by simp
  have v: "internet_checksum False [8, 0, 0, 0, 0x12, 0x34, 0, 1, 0xAB] = 0xCA3A"
    by (simp add: internet_checksum_def load16_def ones_add_def)
  from checksum_ok [OF l, of False] l v show ?thesis by simp
qed

text \<open>
  The claim as stated, for every buffer, fails on 131076 bytes \<open>0xFF\<close>: the sum of 65538
  words \<open>0xFFFF\<close> wraps around \<open>2 ^ 32\<close>, one carry is lost, and the routine returns 1 where
  the Internet checksum is 0.
\<close>

lemma words16_replicate: "words16 be (replicate (2 * n) b) = replicate n (load16 be b b)"
  by (induction n) simp_all

lemma foldl_ones_add_replicate:
  "foldl ones_add 65535 (replicate n 65535) = 65535"
  by (induction n) (simp_all add: ones_add_def)

theorem checksum_long_buffer_counterexample:
  "calculateChecksum False (replicate 131076 0xFF) = 1
   \<and> internet_checksum False (replicate 131076 0xFF) = 0"
proof -
  have w: "words16 False (replicate 131076 (0xFF :: u8)) = replicate 65538 65535"
    using words16_replicate [of False 65538 "0xFF"] by (simp add: load16_def)
  have s: "sum_words False (replicate 131076 0xFF) 0 = 65534"
    using sum_words_total [of False "replicate 131076 0xFF" 0] by (simp add: w sum_list_replicate)
  have f: "fold_carries 65534 = 65534" by (subst fold_carries.simps) simp
  have "replicate 65538 (65535 :: nat) = 65535 # replicate 65537 65535"
    by (simp add: replicate_Suc [symmetric] del: replicate_Suc)
  then have o: "foldl ones_add 0 (replicate 65538 65535) = 65535"
    by (simp add: foldl_ones_add_replicate ones_add_def)
  show ?thesis
    by (simp add: calculateChecksum_def internet_checksum_def s f w o)
qed

lemma open_files_eq:
  "open_files env flags names st =
     st\<lparr>file_descriptors := file_descriptors st @ opened_fds env flags names,
        effects := effects st @ expected_open_effects env flags names,
        messages := messages st @ expected_open_messages env flags names\<rparr>"
proof (induction names arbitrary: st)
  case Nil
  show ?case by (simp add: opened_fds_def expected_open_effects_def expected_open_messages_def)
next
  case (Cons name rest)
  show ?case
    by (cases "open_call env name (open_flags flags)")
       (simp add: Cons.IH opened_fds_def expected_open_effects_def expected_open_messages_def
          open_flags_def)
qed

lemma close_files_eq:
  "close_files env fds st =
     st\<lparr>effects := effects st @ map Closed (filter (\<lambda>fd. fd \<noteq> - 1) fds),
        messages := messages st @
          concat (map (\<lambda>fd. case close_call env fd of
                          Some strerror \<Rightarrow> [Text (''Error closing file: '' @ strerror @ ''\<newline>'')]
                        | None \<Rightarrow> []) (filter (\<lambda>fd. fd \<noteq> - 1) fds))\<rparr>"
  by (induction fds arbitrary: st) simp_all

text \<open>One pass of the loop over the files, on the part of the array not yet visited.\<close>

lemma write_files_eq:
  assumes "file_descriptors st = pre @ cur" "length pre = i" "length cur = length names"
  shows "write_files env k buffer n names i st =
     st\<lparr>file_descriptors := pre @ map (\<lambda>fd. if fd \<noteq> - 1 \<and> \<not> write_complete env fd k n then - 1 else fd) cur,
        effects := effects st @
          concat (map (\<lambda>fd. if fd \<noteq> - 1
                        then Wrote fd (take (nat (fst (write_call env fd k n))) buffer)
                             # (if write_complete env fd k n then [] else [Closed fd])
                        else []) cur),
        messages := messages st @
          concat (map (\<lambda>(name, fd).
                    if fd \<noteq> - 1 \<and> \<not> write_complete env fd k n
                    then [Text (''tee: '' @ name @ '': '' @ snd (write_call env fd k n) @ ''\<newline>'')]
                    else []) (zip names cur))\<rparr>"
  using assms
proof (induction names arbitrary: i st pre cur)
  case Nil
  then show ?case by simp
next
  case (Cons name rest)
  then obtain fd cur' where cur: "cur = fd # cur'" by (cases cur) auto
  with Cons.prems have at: "file_descriptors st ! i = fd" by (simp add: nth_append)
  obtain r e where w: "write_call env fd k n = (r, e)" by (cases "write_call env fd k n")
  show ?case
  proof (cases "fd \<noteq> - 1 \<and> \<not> write_complete env fd k n")
    case True
    let ?st = "st\<lparr>effects := effects st @ [Wrote fd (take (nat r) buffer)],
                  messages := messages st @ [Text (''tee: '' @ name @ '': '' @ e @ ''\<newline>'')],
                  effects := effects st @ [Wrote fd (take (nat r) buffer)] @ [Closed fd],
                  file_descriptors := (file_descriptors st)[i := - 1]\<rparr>"
    have fds: "file_descriptors ?st = (pre @ [- 1]) @ cur'"
      using Cons.prems cur by (simp add: list_update_append)
    have "write_files env k buffer n (name # rest) i st = write_files env k buffer n rest (i + 1) ?st"
      using True at w by (simp add: write_complete_def)
    also have "\<dots> = ?st\<lparr>file_descriptors := (pre @ [- 1]) @ map (\<lambda>fd. if fd \<noteq> - 1 \<and> \<not> write_complete env fd k n then - 1 else fd) cur',
        effects := effects ?st @
          concat (map (\<lambda>fd. if fd \<noteq> - 1
                        then Wrote fd (take (nat (fst (write_call env fd k n))) buffer)
                             # (if write_complete env fd k n then [] else [Closed fd])
                        else []) cur'),
        messages := messages ?st @
          concat (map (\<lambda>(name, fd).
                    if fd \<noteq> - 1 \<and> \<not> write_complete env fd k n
                    then [Text (''tee: '' @ name @ '': '' @ snd (write_call env fd k n) @ ''\<newline>'')]
                    else []) (zip rest cur'))\<rparr>"
      by (rule Cons.IH [OF fds]) (use Cons.prems cur in simp_all)
    finally show ?thesis using True w cur by simp
  next
    case False
    let ?st = "if fd \<noteq> - 1 then st\<lparr>effects := effects st @ [Wrote fd (take (nat r) buffer)]\<rparr> else st"
    have fds: "file_descriptors ?st = (pre @ [fd]) @ cur'"
      using Cons.prems cur by simp
    have "write_files env k buffer n (name # rest) i st = write_files env k buffer n rest (i + 1) ?st"
      using False at w by (auto simp: write_complete_def)
    also have "\<dots> = ?st\<lparr>file_descriptors := (pre @ [fd]) @ map (\<lambda>fd. if fd \<noteq> - 1 \<and> \<not> write_complete env fd k n then - 1 else fd) cur',
        effects := effects ?st @
          concat (map (\<lambda>fd. if fd \<noteq> - 1
                        then Wrote fd (take (nat (fst (write_call env fd k n))) buffer)
                             # (if write_complete env fd k n then [] else [Closed fd])
                        else []) cur'),
        messages := messages ?st @
          concat (map (\<lambda>(name, fd).
                    if fd \<noteq> - 1 \<and> \<not> write_complete env fd k n
                    then [Text (''tee: '' @ name @ '': '' @ snd (write_call env fd k n) @ ''\<newline>'')]
                    else []) (zip rest cur'))\<rparr>"
      by (rule Cons.IH [OF fds]) (use Cons.prems cur in simp_all)
    finally show ?thesis using False w cur by auto
  qed
qed

lemma still_valid_Suc:
  "still_valid env chunks fd (Suc k)
     \<longleftrightarrow> still_valid env chunks fd k \<and> write_complete env fd k (length (chunks ! k))"
  by (auto simp: still_valid_def)

lemma still_valid_minus1 [simp]: "\<not> still_valid env chunks (- 1) k"
  by (simp add: still_valid_def)

lemma still_valid_fd: "still_valid env chunks fd k \<Longrightarrow> fd \<noteq> - 1"
  by (simp add: still_valid_def)

lemma tee_loop_eq:
  assumes "chunks = done @ todo" "k = length done"
    and "\<forall>c \<in> set todo. c \<noteq> [] \<and> length c \<le> TEE_BUFFER_SIZE"
    and "\<forall>j. k \<le> j \<and> j < length chunks \<longrightarrow>
           fst (write_call env STDOUT_FILENO j (length (chunks ! j))) = int (length (chunks ! j))"
    and "file_descriptors st = map (\<lambda>fd. if still_valid env chunks fd k then fd else - 1) fds"
    and "length fds = length names"
  shows "tee_loop env names (map Inr todo) k buffer st =
     (0, st\<lparr>file_descriptors := map (\<lambda>fd. if still_valid env chunks fd (length chunks) then fd else - 1) fds,
            effects := effects st @ concat (map (expected_chunk_effects env chunks fds) [k..<length chunks]),
            messages := messages st @ concat (map (expected_chunk_messages env chunks names fds) [k..<length chunks])\<rparr>)"
  using assms
proof (induction todo arbitrary: "done" k buffer st)
  case Nil
  then show ?case by simp
next
  case (Cons c rest)
  let ?n = "length c"
  from Cons.prems have ck: "chunks ! k = c" and klt: "k < length chunks" by simp_all
  from Cons.prems have cne: "c \<noteq> []" by simp
  from Cons.prems(4) klt ck have so: "fst (write_call env STDOUT_FILENO k ?n) = int ?n" by auto
  obtain e where w: "write_call env STDOUT_FILENO k ?n = (int ?n, e)"
    using so by (cases "write_call env STDOUT_FILENO k ?n") simp
  from Cons.prems have "?n \<le> TEE_BUFFER_SIZE" by simp
  then have sz: "to_size_t (int ?n) = ?n"
    by (simp add: to_size_t_def TEE_BUFFER_SIZE_def)
  let ?cur = "map (\<lambda>fd. if still_valid env chunks fd k then fd else - 1) fds"
  let ?st1 = "st\<lparr>effects := effects st @ [Wrote STDOUT_FILENO c]\<rparr>"
  have f1: "file_descriptors ?st1 = [] @ ?cur" using Cons.prems(5) by simp
  note wf = write_files_eq [OF f1, of 0 names env k c ?n]
  let ?st2 = "write_files env k c ?n names 0 ?st1"
  have fds2: "file_descriptors ?st2 = map (\<lambda>fd. if still_valid env chunks fd (Suc k) then fd else - 1) fds"
    using Cons.prems(6) ck by (subst wf) (auto simp: still_valid_Suc dest: still_valid_fd)
  have eff2: "effects ?st2 = effects st @ expected_chunk_effects env chunks fds k"
    using Cons.prems(6) ck
    by (subst wf) (auto simp: expected_chunk_effects_def comp_def  dest: still_valid_fd intro!: arg_cong [where f = concat])
  have msg2: "messages ?st2 = messages st @ expected_chunk_messages env chunks names fds k"
    using Cons.prems(6) ck
    by (subst wf) (auto simp: expected_chunk_messages_def zip_map2 comp_def dest: still_valid_fd intro!: arg_cong [where f = concat])
  have step: "tee_loop env names (map Inr (c # rest)) k buffer st = tee_loop env names (map Inr rest) (Suc k) c ?st2"
    using cne w sz by simp
  have ih: "tee_loop env names (map Inr rest) (Suc k) c ?st2 =
     (0, ?st2\<lparr>file_descriptors := map (\<lambda>fd. if still_valid env chunks fd (length chunks) then fd else - 1) fds,
            effects := effects ?st2 @ concat (map (expected_chunk_effects env chunks fds) [Suc k..<length chunks]),
            messages := messages ?st2 @ concat (map (expected_chunk_messages env chunks names fds) [Suc k..<length chunks])\<rparr>)"
  proof (rule Cons.IH [where ?done = "done @ [c]"])
    show "chunks = (done @ [c]) @ rest" using Cons.prems by simp
    show "Suc k = length (done @ [c])" using Cons.prems by simp
    show "\<forall>c \<in> set rest. c \<noteq> [] \<and> length c \<le> TEE_BUFFER_SIZE" using Cons.prems by simp
    show "\<forall>j. Suc k \<le> j \<and> j < length chunks \<longrightarrow>
           fst (write_call env STDOUT_FILENO j (length (chunks ! j))) = int (length (chunks ! j))"
      using Cons.prems(4) by simp
    show "file_descriptors ?st2 = map (\<lambda>fd. if still_valid env chunks fd (Suc k) then fd else - 1) fds"
      by (rule fds2)
    show "length fds = length names" by (rule Cons.prems)
  qed
  have upt: "[k..<length chunks] = k # [Suc k..<length chunks]"
    using klt by (simp add: upt_conv_Cons)
  have rec: "?st2 = ?st1\<lparr>file_descriptors := file_descriptors ?st2, effects := effects ?st2, messages := messages ?st2\<rparr>"
    by simp
  show ?case
    unfolding step ih upt
    by (subst (1) rec) (simp add: eff2 msg2)
qed

lemma tee_options_append:
  "tee_options opts f = Inr flags \<Longrightarrow> append_flag flags = (append_flag f \<or> TeeAppend \<in> set opts)"
  by (induction opts f rule: tee_options.induct) auto

text \<open>
  C6 (tee). Let all reads succeed with chunks of 1 to 4096 bytes and all writes to
  standard output be complete. Then \<open>tee\<close> exits with status 0 having done exactly what
  \<open>tee_expected\<close> says: a file that cannot be opened, or a write to which is not
  complete, gets its message on standard error and the descriptor -1, and is left out
  from then on; every chunk goes to standard output and to every file that is still
  valid; the files are opened with \<open>O_APPEND\<close> if \<open>-a\<close> is among the options and with
  \<open>O_TRUNC\<close> otherwise.
\<close>

theorem tee_skips_failed_files:
  assumes "tee_options opts
             \<lparr>append_flag = False, ignore_interrupts = False, output_linebuffered = False,
              verbose_mode = False\<rparr> = Inr flags"
    and "names = [] \<or> malloc_ok env"
    and "read_calls env = map Inr chunks"
    and "\<forall>c \<in> set chunks. c \<noteq> [] \<and> length c \<le> TEE_BUFFER_SIZE"
    and "\<forall>j < length chunks.
           fst (write_call env STDOUT_FILENO j (length (chunks ! j))) = int (length (chunks ! j))"
  shows "tee_main env opts names = Inr (0, tee_expected env flags names chunks)
         \<and> append_flag flags = (TeeAppend \<in> set opts)"
proof -
  let ?fds = "opened_fds env flags names"
  let ?st0 = "\<lparr>file_descriptors = [], effects = [], messages = []\<rparr>"
  let ?st1 = "open_files env flags names ?st0"
  have st1: "?st1 = \<lparr>file_descriptors = ?fds, effects = expected_open_effects env flags names,
                      messages = expected_open_messages env flags names\<rparr>"
    by (subst open_files_eq) simp
  have v0: "map (\<lambda>fd. if still_valid env chunks fd 0 then fd else - 1) ?fds = ?fds"
    by (induction names) (auto simp: opened_fds_def still_valid_def)
  have loop: "tee_loop env names (map Inr chunks) 0 [] ?st1 =
     (0, ?st1\<lparr>file_descriptors := map (\<lambda>fd. if still_valid env chunks fd (length chunks) then fd else - 1) ?fds,
            effects := effects ?st1 @ concat (map (expected_chunk_effects env chunks ?fds) [0..<length chunks]),
            messages := messages ?st1 @ concat (map (expected_chunk_messages env chunks names ?fds) [0..<length chunks])\<rparr>)"
  proof (rule tee_loop_eq [where ?done = "[]"])
    show "chunks = [] @ chunks" by simp
    show "0 = length []" by simp
    show "\<forall>c \<in> set chunks. c \<noteq> [] \<and> length c \<le> TEE_BUFFER_SIZE" by (rule assms)
    show "\<forall>j. 0 \<le> j \<and> j < length chunks \<longrightarrow>
           fst (write_call env STDOUT_FILENO j (length (chunks ! j))) = int (length (chunks ! j))"
      using assms(5) by simp
    show "file_descriptors ?st1 = map (\<lambda>fd. if still_valid env chunks fd 0 then fd else - 1) ?fds"
      by (simp add: st1 v0)
    show "length ?fds = length names" by (simp add: opened_fds_def)
  qed
  have flt: "filter (\<lambda>fd. fd \<noteq> - 1) (map (\<lambda>fd. if still_valid env chunks fd n then fd else - 1) fds)
        = filter (\<lambda>fd. still_valid env chunks fd n) fds" for n fds
    by (induction fds) (auto dest: still_valid_fd)
  have "tee_main env opts names = Inr (0, tee_expected env flags names chunks)"
    using assms(1,2)
    by (simp add: tee_main_def assms(3) loop [unfolded st1] Let_def SIZE_MAX_def close_files_eq flt
        tee_expected_def st1 expected_close_effects_def expected_close_messages_def)
  moreover have "append_flag flags = (TeeAppend \<in> set opts)"
    using tee_options_append [OF assms(1)] by simp
  ultimately show ?thesis by simp
qed

theorem tee_skips_failed_files_witness:
  "tee_main tee_example_env [TeeAppend] [''a'', ''b'', ''c'']
     = Inr (0, \<lparr>file_descriptors = [- 1, - 1, 4],
                effects = [Opened ''a'' [O_WRONLY, O_CREAT, O_APPEND] 3,
                           Opened ''c'' [O_WRONLY, O_CREAT, O_APPEND] 4,
                           Wrote 1 ''x'', Wrote 3 ''x'', Wrote 4 ''x'',
                           Wrote 1 ''y'', Wrote 3 [], Closed 3, Wrote 4 ''y'',
                           Closed 4],
                messages = [Text ''tee: b: Permission denied\<newline>'',
                            Text ''tee: a: No space left on device\<newline>'']\<rparr>)"
proof -
  let ?flags = "\<lparr>append_flag = True, ignore_interrupts = False, output_linebuffered = False,
              verbose_mode = False\<rparr>"
  have 1: "tee_options [TeeAppend]
             \<lparr>append_flag = False, ignore_interrupts = False, output_linebuffered = False,
              verbose_mode = False\<rparr> = Inr ?flags" by simp
  have 2: "[''a'', ''b'', ''c''] = [] \<or> malloc_ok tee_example_env" by (simp add: tee_example_env_def)
  have 3: "read_calls tee_example_env = map Inr [''x'', ''y'']" by (simp add: tee_example_env_def)
  have 4: "\<forall>c \<in> set [''x'', ''y'']. c \<noteq> [] \<and> length c \<le> TEE_BUFFER_SIZE"
    by (simp add: TEE_BUFFER_SIZE_def)
  have 5: "\<forall>j < length [''x'', ''y''].
           fst (write_call tee_example_env STDOUT_FILENO j (length ([''x'', ''y''] ! j)))
             = int (length ([''x'', ''y''] ! j))"
    by (simp add: tee_example_env_def STDOUT_FILENO_def)
  have e: "tee_expected tee_example_env ?flags [''a'', ''b'', ''c''] [''x'', ''y'']
     = \<lparr>file_descriptors = [- 1, - 1, 4],
                effects = [Opened ''a'' [O_WRONLY, O_CREAT, O_APPEND] 3,
                           Opened ''c'' [O_WRONLY, O_CREAT, O_APPEND] 4,
                           Wrote 1 ''x'', Wrote 3 ''x'', Wrote 4 ''x'',
                           Wrote 1 ''y'', Wrote 3 [], Closed 3, Wrote 4 ''y'',
                           Closed 4],
                messages = [Text ''tee: b: Permission denied\<newline>'',
                            Text ''tee: a: No space left on device\<newline>'']\<rparr>"
    by (simp add: tee_expected_def tee_example_env_def opened_fds_def open_flags_def
        expected_open_effects_def expected_open_messages_def expected_chunk_effects_def
        expected_chunk_messages_def expected_close_effects_def expected_close_messages_def
        still_valid_def write_complete_def to_size_t_def STDOUT_FILENO_def upt_rec)
  from tee_skips_failed_files [OF 1 2 3 4 5] show ?thesis by (simp only: e)
qed

lemma print_item_dirs_only:
  "is_directory path \<Longrightarrow> dirs_only st \<Longrightarrow> dirs_only (print_item h options path prefix isLast st)"
  by (simp add: print_item_def dirs_only_def Let_def)

lemma printTree_skip:
  assumes "(maxDepth options \<noteq> - 1 \<and> depth > maxDepth options)
     \<or> (\<not> showHidden options \<and> path_filename path \<noteq> [] \<and> hd (path_filename path) = CHR ''.'')
     \<or> (onlyDirs options \<and> \<not> is_directory path) \<or> (onlyFiles options \<and> is_directory path)
     \<or> matchesPattern options (path_filename path) = Inr False"
  shows "printTree h options path prefix isLast depth st = Inr st"
  using assms by (subst printTree.simps) auto

lemma printTree_fault:
  assumes "\<not> (maxDepth options \<noteq> - 1 \<and> depth > maxDepth options)"
    and "\<not> (\<not> showHidden options \<and> path_filename path \<noteq> [] \<and> hd (path_filename path) = CHR ''.'')"
    and "\<not> ((onlyDirs options \<and> \<not> is_directory path) \<or> (onlyFiles options \<and> is_directory path))"
    and "matchesPattern options (path_filename path) = Inl f"
  shows "printTree h options path prefix isLast depth st = Inl f"
  by (subst printTree.simps) (simp only: assms if_False sum.case)

lemma printTree_go:
  assumes "\<not> (maxDepth options \<noteq> - 1 \<and> depth > maxDepth options)"
    and "\<not> (\<not> showHidden options \<and> path_filename path \<noteq> [] \<and> hd (path_filename path) = CHR ''.'')"
    and "\<not> ((onlyDirs options \<and> \<not> is_directory path) \<or> (onlyFiles options \<and> is_directory path))"
    and "matchesPattern options (path_filename path) = Inr True"
  shows "printTree h options path prefix isLast depth st =
           (if is_directory path
            then (case listing path of
                    Some paths \<Rightarrow>
                      printTree_loop h options (sort_key path_filename paths)
                        (prefix @ (if isLast then ''    '' else indentChars options)) (depth + 1)
                        (print_item h options path prefix isLast st)
                  | None \<Rightarrow>
                      Inr ((print_item h options path prefix isLast st)
                           \<lparr>printed := printed (print_item h options path prefix isLast st) @
                              [ErrorLine (prefix @ (if isLast then ''    '' else indentChars options)
                                 @ lastBranchChars options
                                 @ printWithColor options (''Error: '' @ listing_what path) COLOR_RED)]\<rparr>))
            else Inr (print_item h options path prefix isLast st))"
  by (subst printTree.simps) (simp only: assms if_False sum.case bool.case Let_def)

lemma printTree_dirs_only:
  "onlyDirs options \<Longrightarrow> dirs_only st \<Longrightarrow>
     printTree h options path prefix isLast depth st = Inr st' \<Longrightarrow> dirs_only st'"
  "onlyDirs options \<Longrightarrow> dirs_only st \<Longrightarrow>
     printTree_loop h options paths prefix depth st = Inr st' \<Longrightarrow> dirs_only st'"
proof (induction h options path prefix isLast depth st and h options paths prefix depth st
       arbitrary: st' and st' rule: printTree_printTree_loop.induct)
  case (1 h options path prefix isLast depth st)
  let ?st1 = "print_item h options path prefix isLast st"
  let ?c = "(maxDepth options \<noteq> - 1 \<and> depth > maxDepth options)
     \<or> (\<not> showHidden options \<and> path_filename path \<noteq> [] \<and> hd (path_filename path) = CHR ''.'')
     \<or> (onlyDirs options \<and> \<not> is_directory path) \<or> (onlyFiles options \<and> is_directory path)"
  show ?case
  proof (cases ?c)
    case True
    then have "printTree h options path prefix isLast depth st = Inr st"
      by (intro printTree_skip) blast
    with 1(3,4) show ?thesis by simp
  next
    case False
    then have c: "\<not> (maxDepth options \<noteq> - 1 \<and> depth > maxDepth options)"
      "\<not> (\<not> showHidden options \<and> path_filename path \<noteq> [] \<and> hd (path_filename path) = CHR ''.'')"
      "\<not> ((onlyDirs options \<and> \<not> is_directory path) \<or> (onlyFiles options \<and> is_directory path))"
      by blast+
    from c(3) 1(2) have dir: "is_directory path" by simp
    with 1(3) have d1: "dirs_only ?st1" by (simp add: print_item_dirs_only)
    show ?thesis
    proof (cases "matchesPattern options (path_filename path)")
      case (Inl f)
      from printTree_fault [OF c Inl] 1(4) show ?thesis by simp
    next
      case (Inr b)
      show ?thesis
      proof (cases b)
        case False
        with Inr have "printTree h options path prefix isLast depth st = Inr st"
          by (intro printTree_skip) simp
        with 1(3,4) show ?thesis by simp
      next
        case True
        with Inr have m: "matchesPattern options (path_filename path) = Inr True" by simp
        note go = printTree_go [OF c m, of h prefix isLast st]
        show ?thesis
        proof (cases "listing path")
          case None
          with go dir 1(4) have "st' = ?st1\<lparr>printed := printed ?st1 @
                              [ErrorLine (prefix @ (if isLast then ''    '' else indentChars options)
                                 @ lastBranchChars options
                                 @ printWithColor options (''Error: '' @ listing_what path) COLOR_RED)]\<rparr>"
            by simp
          with d1 show ?thesis by (simp add: dirs_only_def)
        next
          case (Some paths)
          with go dir 1(4) have r: "printTree_loop h options (sort_key path_filename paths)
                               (prefix @ (if isLast then ''    '' else indentChars options)) (depth + 1) ?st1 = Inr st'"
            by simp
          show ?thesis
            by (rule 1(1) [OF c(1) c(2) c(3) m refl refl dir Some 1(2) d1 r])
        qed
      qed
    qed
  qed
next
  case (2 h options prefix depth st)
  then show ?case by simp
next
  case (3 h options p rest prefix depth st)
  from 3(5) obtain st1 where a: "printTree h options p prefix (rest = []) depth st = Inr st1"
    and b: "printTree_loop h options rest prefix depth st1 = Inr st'"
    by (cases "printTree h options p prefix (rest = []) depth st") simp_all
  from 3(1) [OF 3(3) 3(4) a] have "dirs_only st1" .
  from 3(2) [OF a 3(3) this b] show ?case .
qed

lemma matchesPattern_loop_fault:
  "matchesPattern_loop ps filename = Inl f \<Longrightarrow> f = OutOfBounds \<and> [] \<in> set ps"
  by (induction ps filename rule: matchesPattern_loop.induct) (auto simp: Let_def split: if_splits)

lemma matchesPattern_fault:
  "matchesPattern options filename = Inl f \<Longrightarrow> f = OutOfBounds \<and> [] \<in> set (patterns options)"
  by (auto simp: matchesPattern_def dest: matchesPattern_loop_fault split: if_splits)

lemma printTree_faults:
  "printTree h options path prefix isLast depth st = Inl f
     \<Longrightarrow> f = OutOfBounds \<and> [] \<in> set (patterns options)"
  "printTree_loop h options paths prefix depth st = Inl f
     \<Longrightarrow> f = OutOfBounds \<and> [] \<in> set (patterns options)"
proof (induction h options path prefix isLast depth st and h options paths prefix depth st
       rule: printTree_printTree_loop.induct)
  case (1 h options path prefix isLast depth st)
  let ?st1 = "print_item h options path prefix isLast st"
  let ?c = "(maxDepth options \<noteq> - 1 \<and> depth > maxDepth options)
     \<or> (\<not> showHidden options \<and> path_filename path \<noteq> [] \<and> hd (path_filename path) = CHR ''.'')
     \<or> (onlyDirs options \<and> \<not> is_directory path) \<or> (onlyFiles options \<and> is_directory path)"
  show ?case
  proof (cases ?c)
    case True
    then have "printTree h options path prefix isLast depth st = Inr st"
      by (intro printTree_skip) blast
    with 1(2) show ?thesis by simp
  next
    case False
    then have c: "\<not> (maxDepth options \<noteq> - 1 \<and> depth > maxDepth options)"
      "\<not> (\<not> showHidden options \<and> path_filename path \<noteq> [] \<and> hd (path_filename path) = CHR ''.'')"
      "\<not> ((onlyDirs options \<and> \<not> is_directory path) \<or> (onlyFiles options \<and> is_directory path))"
      by blast+
    show ?thesis
    proof (cases "matchesPattern options (path_filename path)")
      case (Inl g)
      from printTree_fault [OF c Inl] 1(2) have "g = f" by simp
      with Inl show ?thesis by (simp add: matchesPattern_fault)
    next
      case (Inr b)
      show ?thesis
      proof (cases b)
        case False
        with Inr have "printTree h options path prefix isLast depth st = Inr st"
          by (intro printTree_skip) simp
        with 1(2) show ?thesis by simp
      next
        case True
        with Inr have m: "matchesPattern options (path_filename path) = Inr True" by simp
        note go = printTree_go [OF c m, of h prefix isLast st]
        show ?thesis
        proof (cases "is_directory path")
          case False
          with go 1(2) show ?thesis by simp
        next
          case dir: True
          show ?thesis
          proof (cases "listing path")
            case None
            with go dir 1(2) show ?thesis by simp
          next
            case (Some paths)
            with go dir 1(2) have r: "printTree_loop h options (sort_key path_filename paths)
                               (prefix @ (if isLast then ''    '' else indentChars options)) (depth + 1) ?st1 = Inl f"
              by simp
            show ?thesis
              by (rule 1(1) [OF c(1) c(2) c(3) m refl refl dir Some r])
          qed
        qed
      qed
    qed
  qed
next
  case (2 h options prefix depth st)
  then show ?case by simp
next
  case (3 h options p rest prefix depth st)
  show ?case
  proof (cases "printTree h options p prefix (rest = []) depth st")
    case (Inl g)
    with 3(3) have "g = f" by simp
    with Inl 3(1) show ?thesis by simp
  next
    case (Inr st1)
    with 3(3) have "printTree_loop h options rest prefix depth st1 = Inl f" by simp
    from 3(2) [OF Inr this] show ?thesis .
  qed
qed

text \<open>
  C7 (tree -d). With \<open>onlyDirs\<close> set, whatever the other options, a run that returns has
  counted no file, and every entry it has printed is a directory. A run does not
  return only if the root directory itself cannot be read (the exception is not caught)
  or if an empty pattern was given with \<open>-P\<close>.
\<close>

theorem tree_only_dirs:
  assumes "onlyDirs options"
  shows "case run h options rootPath root of
           Inr (st, err) \<Rightarrow> dirs_only st
         | Inl f \<Rightarrow> (f = UncaughtException \<and> root \<noteq> None \<and> listing (the root) = None)
                    \<or> (f = OutOfBounds \<and> [] \<in> set (patterns options))"
proof (cases root)
  case None
  then show ?thesis by (simp add: run_def dirs_only_def)
next
  case (Some r)
  let ?st0 = "\<lparr>dirCount = 0, fileCount = 0, printed = [Line rootPath]\<rparr>"
  have d0: "dirs_only ?st0" by (simp add: dirs_only_def)
  show ?thesis
  proof (cases "is_directory r")
    case False
    with Some show ?thesis by (simp add: run_def dirs_only_def)
  next
    case True
    show ?thesis
    proof (cases "listing r")
      case None
      with Some True show ?thesis by (simp add: run_def)
    next
      case l: (Some paths)
      show ?thesis
      proof (cases "printTree_loop h options (sort_key path_filename paths) [] 0 ?st0")
        case (Inl f)
        with Some True l printTree_faults(2) [OF Inl] show ?thesis by (simp add: run_def)
      next
        case (Inr st)
        from printTree_dirs_only(2) [OF assms d0 Inr] have "dirs_only st" .
        with Some True l Inr show ?thesis by (simp add: run_def dirs_only_def)
      qed
    qed
  qed
qed

theorem tree_only_dirs_witness:
  "onlyDirs (Options_default\<lparr>onlyDirs := True, colorOutput := False\<rparr>)
   \<and> map_sum id (\<lambda>(st, err). (dirCount st, fileCount st, length (printed st), dirs_only st))
       (run (\<lambda>n. decimal n @ ''B'') (Options_default\<lparr>onlyDirs := True, colorOutput := False\<rparr>)
          ''/srv'' (Some tree_example))
     = Inr (3, 0, 7, True)"
proof -
  have o: "onlyDirs (Options_default\<lparr>onlyDirs := True, colorOutput := False\<rparr>)" by simp
  have r: "map_sum id (\<lambda>(st, err). (dirCount st, fileCount st, length (printed st)))
       (run (\<lambda>n. decimal n @ ''B'') (Options_default\<lparr>onlyDirs := True, colorOutput := False\<rparr>)
          ''/srv'' (Some tree_example))
     = Inr (3, 0, 7)"
    by code_simp
  from tree_only_dirs [OF o, where h = "\<lambda>n. decimal n @ ''B''" and rootPath = "''/srv''"
      and root = "Some tree_example"] r o
  show ?thesis
    by (auto simp: map_sum_def split: sum.splits prod.splits)
qed















subsection \<open>conf-convert: the ordered store\<close>









lemma add_comment_data [simp]: "config_data (add_comment text c) = config_data c"
  by (simp add: add_comment_def)




























text \<open>
  C10 (kill, parse_signal). The loop visits all 32 slots of the table, and the last one is
  null: on the input "9", which is no signal name, the comparison against slot 31
  dereferences a null pointer, so the function returns neither -1 nor a number.
\<close>

theorem parse_signal_numeric_faults: "parse_signal ''9'' = Inl NullDeref"
  by (simp add: parse_signal_def signals_def MAX_SIGNALS_def tolower_c_def)

end
